theory Spec2Isabelle
  imports Main "HOL-Library.Char_ord" "HOL-Library.List_Lexorder" "HOL-Library.Multiset" "HOL-Library.Word"
begin

section \<open>Errors\<close>

text \<open>
  The Go code reports failures either by returning an error value or by calling
  \<^verbatim>\<open>fatalIf\<close>. That function is not among the sources; as its name and its callers
  say (they go on to use results that exist only when the error was nil), it returns when
  the error is nil and prints the message and ends the process otherwise. Both kinds of
  failure are results of the model: \<open>Inl e\<close>. \<open>Fatal\<close> stands for the process ending
  in \<^verbatim>\<open>fatalIf\<close>; the other constructors are error values handed back to the caller.
\<close>

datatype error =
    Fatal string
  | InvalidArgument
  | ConfigDirError
  | StatError
  | LoadError
  | SyncError
  | CloseError
  | SaveError
  | RemoveError
  | AnonymousPresign

section \<open>Resume filter: \<^verbatim>\<open>isCopiedFactory\<close>\<close>

text \<open>
  \<^verbatim>\<open>isCopiedFactory(lastCopied)\<close> returns a closure over the variable \<^verbatim>\<open>copied\<close>, which
  starts as \<^verbatim>\<open>true\<close>. The closure's captured variable is the state of the model:
  a call takes the current value of \<^verbatim>\<open>copied\<close> and returns the answer together with
  the new value. A call with an empty source ends the process in \<^verbatim>\<open>fatalIf\<close>.
\<close>

definition isCopiedFactory :: "string \<Rightarrow> bool" where
  "isCopiedFactory lastCopied = True"

definition isCopied :: "string \<Rightarrow> bool \<Rightarrow> string \<Rightarrow> error + (bool \<times> bool)" where
  "isCopied lastCopied copied sourceURL =
     (if sourceURL = [] then Inl (Fatal ''Empty source argument passed.'')
      else if lastCopied = [] then Inr (False, copied)
      else if copied then
        (if lastCopied = sourceURL then Inr (True, False) else Inr (True, copied))
      else Inr (False, copied))"

text \<open>
  The closure called on each item of the replayed sequence in turn: the answers in call
  order, or the fatal error of the first call that ends the process.
\<close>

fun replay :: "string \<Rightarrow> bool \<Rightarrow> string list \<Rightarrow> error + bool list" where
  "replay lastCopied copied [] = Inr []"
| "replay lastCopied copied (x # xs) =
     (case isCopied lastCopied copied x of
        Inl e \<Rightarrow> Inl e
      | Inr (b, copied') \<Rightarrow>
          (case replay lastCopied copied' xs of
             Inl e \<Rightarrow> Inl e
           | Inr bs \<Rightarrow> Inr (b # bs)))"

text \<open>Position of the first item equal to the checkpoint (the length, when there is none).\<close>

definition firstIndex :: "string \<Rightarrow> string list \<Rightarrow> nat" where
  "firstIndex lastCopied items = length (takeWhile (\<lambda>x. x \<noteq> lastCopied) items)"

section \<open>Session store\<close>

text \<open>
  A session has two files in the session directory, named after the session id: the
  header file (\<^verbatim>\<open>getSessionFile(sid)\<close>) and the data file
  (\<^verbatim>\<open>getSessionDataFile(sid)\<close>).
\<close>

datatype path = SessionFile string | SessionDataFile string

record sessionV6Header =
  Version :: string
  When :: int
  RootPath :: string
  GlobalBoolFlags :: "(string \<times> bool) list"
  GlobalIntFlags :: "(string \<times> int) list"
  GlobalStringFlags :: "(string \<times> string) list"
  CommandType :: string
  CommandArgs :: "string list"
  CommandBoolFlags :: "(string \<times> bool) list"
  CommandIntFlags :: "(string \<times> int) list"
  CommandStringFlags :: "(string \<times> string) list"
  LastCopied :: string
  TotalBytes :: int
  TotalObjects :: int

text \<open>
  \<^verbatim>\<open>sessionDataFP\<close> embeds an \<^verbatim>\<open>*os.File\<close>: the model keeps the file's name and
  whether the descriptor is still open. \<open>dirty\<close> is set by \<^verbatim>\<open>Write\<close> and says that
  the stream has writes that were not yet synchronised.
\<close>

record sessionDataFP =
  dirty :: bool
  fileName :: path
  isOpen :: bool

text \<open>The mutex is left out (the model is sequential); \<^verbatim>\<open>sigCh\<close> is never read.\<close>

record sessionV6 =
  Header :: sessionV6Header
  SessionID :: string
  DataFP :: sessionDataFP

datatype filedata = HeaderFile sessionV6Header | DataFile string | Unreadable

datatype ioop = OpSync path | OpClose path | OpWrite path | OpRemove path

datatype effect =
    Synced path
  | Closed path
  | HeaderWritten path sessionV6Header
  | Removed path

text \<open>
  The world outside the process: the files of the session directory, which operations
  the operating system refuses, and the list of effects performed so far, oldest first.
\<close>

record world =
  sessionDirExists :: bool
  configDirOk :: bool
  files :: "path \<Rightarrow> filedata option"
  refused :: "ioop \<Rightarrow> bool"
  trace :: "effect list"

text \<open>
  Modelled from the spec: \<^verbatim>\<open>isSessionDirExists\<close>, \<^verbatim>\<open>getSessionFile\<close> and
  \<^verbatim>\<open>getSessionDataFile\<close> are not among the sources. The spec has the header and the data
  record written to the same durable session directory under the same session id; the
  calls for the names fail when that directory cannot be determined.
\<close>

definition isSessionDirExists :: "world \<Rightarrow> bool" where
  "isSessionDirExists w = sessionDirExists w"

definition getSessionFile :: "world \<Rightarrow> string \<Rightarrow> error + path" where
  "getSessionFile w sid = (if configDirOk w then Inr (SessionFile sid) else Inl ConfigDirError)"

definition getSessionDataFile :: "world \<Rightarrow> string \<Rightarrow> error + path" where
  "getSessionDataFile w sid =
     (if configDirOk w then Inr (SessionDataFile sid) else Inl ConfigDirError)"

text \<open>Operating system calls: \<^verbatim>\<open>os.Stat\<close>, \<^verbatim>\<open>os.Open\<close>, \<^verbatim>\<open>os.Remove\<close>, \<^verbatim>\<open>File.Sync\<close>, \<^verbatim>\<open>File.Close\<close>.\<close>

definition os_Stat :: "world \<Rightarrow> path \<Rightarrow> error + unit" where
  "os_Stat w p = (case files w p of None \<Rightarrow> Inl StatError | Some d \<Rightarrow> Inr ())"

definition os_Open :: "world \<Rightarrow> path \<Rightarrow> error + sessionDataFP" where
  "os_Open w p =
     (case files w p of
        None \<Rightarrow> Inl StatError
      | Some d \<Rightarrow> Inr \<lparr>dirty = False, fileName = p, isOpen = True\<rparr>)"

definition os_Remove :: "world \<Rightarrow> path \<Rightarrow> error + world" where
  "os_Remove w p =
     (if files w p = None \<or> refused w (OpRemove p) then Inl RemoveError
      else Inr (w\<lparr>files := (files w)(p := None), trace := trace w @ [Removed p]\<rparr>))"

definition File_Sync :: "world \<Rightarrow> sessionDataFP \<Rightarrow> error + world" where
  "File_Sync w fp =
     (if \<not> isOpen fp \<or> refused w (OpSync (fileName fp)) then Inl SyncError
      else Inr (w\<lparr>trace := trace w @ [Synced (fileName fp)]\<rparr>))"

text \<open>
  \<^verbatim>\<open>File.Close\<close> on a descriptor that is already closed fails and does nothing; otherwise
  the descriptor is released even when the system call reports an error.
\<close>

definition File_Close :: "world \<Rightarrow> sessionDataFP \<Rightarrow> world \<times> sessionDataFP \<times> error option" where
  "File_Close w fp =
     (if \<not> isOpen fp then (w, fp, Some CloseError)
      else if refused w (OpClose (fileName fp)) then (w, fp\<lparr>isOpen := False\<rparr>, Some CloseError)
      else (w\<lparr>trace := trace w @ [Closed (fileName fp)]\<rparr>, fp\<lparr>isOpen := False\<rparr>, None))"

text \<open>
  The \<^verbatim>\<open>quick\<close> package (a library outside this repository) keeps a struct in a JSON
  file. \<^verbatim>\<open>quick.New\<close> only checks that the struct has a \<^verbatim>\<open>Version\<close> field, which
  \<^verbatim>\<open>sessionV6Header\<close> has. \<^verbatim>\<open>Load\<close> unmarshals the file into the struct: a header file
  written by \<^verbatim>\<open>Save\<close> carries every field, the version tag included, so every field
  the struct had before (the preset version of \<^verbatim>\<open>loadSessionV6\<close> among them) is
  overwritten and the loaded header is the stored one. \<^verbatim>\<open>Save\<close> overwrites the file
  with the struct.
\<close>

definition quick_New :: "sessionV6Header \<Rightarrow> error + sessionV6Header" where
  "quick_New h = Inr h"

definition quick_Load :: "world \<Rightarrow> sessionV6Header \<Rightarrow> path \<Rightarrow> error + sessionV6Header" where
  "quick_Load w qs p =
     (case files w p of
        Some (HeaderFile h) \<Rightarrow> Inr h
      | _ \<Rightarrow> Inl LoadError)"

definition quick_Save :: "world \<Rightarrow> sessionV6Header \<Rightarrow> path \<Rightarrow> world \<times> error option" where
  "quick_Save w qs p =
     (if refused w (OpWrite p) then (w, Some SaveError)
      else (w\<lparr>files := (files w)(p \<mapsto> HeaderFile qs),
               trace := trace w @ [HeaderWritten p qs]\<rparr>, None))"

text \<open>The zero value \<^verbatim>\<open>&sessionV6Header{}\<close>.\<close>

definition emptyHeader :: sessionV6Header where
  "emptyHeader =
     \<lparr>Version = [], When = 0, RootPath = [], GlobalBoolFlags = [], GlobalIntFlags = [],
      GlobalStringFlags = [], CommandType = [], CommandArgs = [], CommandBoolFlags = [],
      CommandIntFlags = [], CommandStringFlags = [], LastCopied = [], TotalBytes = 0,
      TotalObjects = 0\<rparr>"

text \<open>\<^verbatim>\<open>loadSessionV6\<close>: reads the session file if it exists.\<close>

definition loadSessionV6 :: "world \<Rightarrow> string \<Rightarrow> world \<times> (error + sessionV6)" where
  "loadSessionV6 w sid =
     (if \<not> isSessionDirExists w then (w, Inl InvalidArgument)
      else case getSessionFile w sid of
        Inl err \<Rightarrow> (w, Inl err)
      | Inr sessionFile \<Rightarrow>
        (case os_Stat w sessionFile of
           Inl err \<Rightarrow> (w, Inl err)
         | Inr u \<Rightarrow>
           (case quick_New (emptyHeader\<lparr>Version := ''5''\<rparr>) of
              Inl err \<Rightarrow> (w, Inl err)
            | Inr qs \<Rightarrow>
              (case quick_Load w qs sessionFile of
                 Inl err \<Rightarrow> (w, Inl err)
               | Inr h \<Rightarrow>
                 (case getSessionDataFile w sid of
                    Inl err \<Rightarrow> (w, Inl err)
                  | Inr sessionDataFile \<Rightarrow>
                    (case os_Open w sessionDataFile of
                       Inl e \<Rightarrow> (w, Inl (Fatal ''Unable to open session data file.''))
                     | Inr dataFile \<Rightarrow>
                         (w, Inr \<lparr>Header = h, SessionID = sid, DataFP = dataFile\<rparr>)))))))"

text \<open>
  \<^verbatim>\<open>migrateSessionV5ToV6\<close>: the loop over \<^verbatim>\<open>getSessionIDs()\<close>, whose result (a function
  that is not among the sources) is the parameter \<open>sids\<close>. \<open>None\<close> is a normal return;
  every failure ends the process. The loop returns at the first session whose version
  is \<^verbatim>\<open>"6"\<close>. The message printed before the removal is left out.
\<close>

fun migrateSessionV5ToV6 :: "world \<Rightarrow> string list \<Rightarrow> world \<times> error option" where
  "migrateSessionV5ToV6 w [] = (w, None)"
| "migrateSessionV5ToV6 w (sid # sids) =
     (case loadSessionV6 w sid of
        (w1, Inl err) \<Rightarrow> (w1, Some (Fatal ''Unable to load version 6. Migration failed.''))
      | (w1, Inr sessionV6) \<Rightarrow>
        if Version (Header sessionV6) = ''6'' then (w1, None)
        else
          (case getSessionFile w1 sid of
             Inl err \<Rightarrow> (w1, Some (Fatal ''Unable to get session file.''))
           | Inr sessionFile \<Rightarrow>
             (case getSessionDataFile w1 sid of
                Inl err \<Rightarrow> (w1, Some (Fatal ''Unable to get session data file.''))
              | Inr sessionDataFile \<Rightarrow>
                (case os_Remove w1 sessionFile of
                   Inl e \<Rightarrow> (w1, Some (Fatal ''Unable to remove session file.''))
                 | Inr w2 \<Rightarrow>
                   (case os_Remove w2 sessionDataFile of
                      Inl e \<Rightarrow> (w2, Some (Fatal ''Unable to remove session data file.''))
                    | Inr w3 \<Rightarrow> migrateSessionV5ToV6 w3 sids)))))"

text \<open>\<^verbatim>\<open>Save\<close>: synchronises the data file when it is dirty, then writes the header file.\<close>

definition Save :: "world \<Rightarrow> sessionV6 \<Rightarrow> world \<times> sessionV6 \<times> error option" where
  "Save w s =
     (case (if dirty (DataFP s) then
              (case File_Sync w (DataFP s) of
                 Inl err \<Rightarrow> Inl err
               | Inr w1 \<Rightarrow> Inr (w1, s\<lparr>DataFP := (DataFP s)\<lparr>dirty := False\<rparr>\<rparr>))
            else Inr (w, s)) of
        Inl err \<Rightarrow> (w, s, Some err)
      | Inr (w1, s1) \<Rightarrow>
        (case quick_New (Header s1) of
           Inl err \<Rightarrow> (w1, s1, Some err)
         | Inr qs \<Rightarrow>
           (case getSessionFile w1 (SessionID s1) of
              Inl err \<Rightarrow> (w1, s1, Some err)
            | Inr sessionFile \<Rightarrow>
                (case quick_Save w1 qs sessionFile of (w2, r) \<Rightarrow> (w2, s1, r)))))"

text \<open>\<^verbatim>\<open>Close\<close>: closes the data file, then writes the header file.\<close>

definition Close :: "world \<Rightarrow> sessionV6 \<Rightarrow> world \<times> sessionV6 \<times> error option" where
  "Close w s =
     (case File_Close w (DataFP s) of
        (w1, fp, Some err) \<Rightarrow> (w1, s\<lparr>DataFP := fp\<rparr>, Some err)
      | (w1, fp, None) \<Rightarrow>
        (let s1 = s\<lparr>DataFP := fp\<rparr> in
         case quick_New (Header s1) of
           Inl err \<Rightarrow> (w1, s1, Some err)
         | Inr qs \<Rightarrow>
           (case getSessionFile w1 (SessionID s1) of
              Inl err \<Rightarrow> (w1, s1, Some err)
            | Inr sessionFile \<Rightarrow>
                (case quick_Save w1 qs sessionFile of (w2, r) \<Rightarrow> (w2, s1, r)))))"

text \<open>The effects an operation added to the trace.\<close>

definition effectsOf :: "world \<Rightarrow> world \<Rightarrow> effect list" where
  "effectsOf w w' = drop (length (trace w)) (trace w')"

text \<open>
  A stored session whose header carries a version other than the current one, \<^verbatim>\<open>"6"\<close>.
\<close>

definition storedForeign :: "world \<Rightarrow> string \<Rightarrow> bool" where
  "storedForeign w sid =
     (case files w (SessionFile sid) of
        Some (HeaderFile h) \<Rightarrow> Version h \<noteq> ''6'' \<and> files w (SessionDataFile sid) \<noteq> None
      | _ \<Rightarrow> False)"

text \<open>The world after both files of a session were removed, header file first.\<close>

definition purged :: "world \<Rightarrow> string \<Rightarrow> world" where
  "purged w sid =
     w\<lparr>files := (files w)(SessionFile sid := None, SessionDataFile sid := None),
       trace := trace w @ [Removed (SessionFile sid), Removed (SessionDataFile sid)]\<rparr>"

text \<open>
  The effect of the last step of \<^verbatim>\<open>Save\<close> and \<^verbatim>\<open>Close\<close>: the header file is written
  unless its name cannot be determined or the write is refused.
\<close>

definition headerWrite :: "world \<Rightarrow> sessionV6 \<Rightarrow> effect list" where
  "headerWrite w s =
     (if configDirOk w \<and> \<not> refused w (OpWrite (SessionFile (SessionID s)))
      then [HeaderWritten (SessionFile (SessionID s)) (Header s)] else [])"

text \<open>Sample data: a session directory holding the one session \<^verbatim>\<open>abcdefgh\<close>.\<close>

definition sampleHeader :: "string \<Rightarrow> sessionV6Header" where
  "sampleHeader v = emptyHeader\<lparr>Version := v, CommandType := ''cp'', LastCopied := ''itemB''\<rparr>"

definition sampleWorld :: "string \<Rightarrow> world" where
  "sampleWorld v =
     \<lparr>sessionDirExists = True, configDirOk = True,
      files = [SessionFile ''abcdefgh'' \<mapsto> HeaderFile (sampleHeader v),
               SessionDataFile ''abcdefgh'' \<mapsto> DataFile ''itemA itemB itemC''],
      refused = (\<lambda>op. False), trace = []\<rparr>"

definition sampleSession :: "bool \<Rightarrow> sessionV6" where
  "sampleSession d =
     \<lparr>Header = sampleHeader ''6'', SessionID = ''abcdefgh'',
      DataFP = \<lparr>dirty = d, fileName = SessionDataFile ''abcdefgh'', isOpen = True\<rparr>\<rparr>"

section \<open>Go standard library: strings, header keys, query strings\<close>

text \<open>
  Go strings are byte strings, as \<^typ>\<open>string\<close> is. The functions of this section
  belong to the Go standard library, not to the repository; they are modelled after
  their documented behaviour. Letter case is the ASCII one: header names are ASCII.
\<close>

definition byte :: "char \<Rightarrow> nat" where
  "byte c = of_char c"

definition isUpper :: "char \<Rightarrow> bool" where
  "isUpper c = (65 \<le> byte c \<and> byte c \<le> 90)"

definition isLower :: "char \<Rightarrow> bool" where
  "isLower c = (97 \<le> byte c \<and> byte c \<le> 122)"

definition isDigit :: "char \<Rightarrow> bool" where
  "isDigit c = (48 \<le> byte c \<and> byte c \<le> 57)"

definition toLowerByte :: "char \<Rightarrow> char" where
  "toLowerByte c = (if isUpper c then char_of (byte c + 32) else c)"

definition toUpperByte :: "char \<Rightarrow> char" where
  "toUpperByte c = (if isLower c then char_of (byte c - 32) else c)"

definition strings_ToLower :: "string \<Rightarrow> string" where
  "strings_ToLower s = map toLowerByte s"

definition strings_HasPrefix :: "string \<Rightarrow> string \<Rightarrow> bool" where
  "strings_HasPrefix s pre = (take (length pre) s = pre)"

definition strings_TrimSuffix :: "string \<Rightarrow> string \<Rightarrow> string" where
  "strings_TrimSuffix s suf =
     (if length suf \<le> length s \<and> drop (length s - length suf) s = suf
      then take (length s - length suf) s else s)"

text \<open>\<^verbatim>\<open>strings.Join\<close>.\<close>

fun strings_Join :: "string list \<Rightarrow> string \<Rightarrow> string" where
  "strings_Join [] sep = []"
| "strings_Join [x] sep = x"
| "strings_Join (x # y # ys) sep = x @ sep @ strings_Join (y # ys) sep"

text \<open>\<^verbatim>\<open>strings.Replace(s, "+", "%20", -1)\<close>.\<close>

definition replacePlus :: "string \<Rightarrow> string" where
  "replacePlus s = concat (map (\<lambda>c. if c = CHR ''+'' then ''%20'' else [c]) s)"

text \<open>
  \<^verbatim>\<open>http.CanonicalHeaderKey\<close>: the first letter and every letter after a hyphen in
  upper case, the others in lower case; a key with a byte that is not allowed in a
  header name is returned as it is.
\<close>

definition validHeaderFieldByte :: "char \<Rightarrow> bool" where
  "validHeaderFieldByte c =
     (isUpper c \<or> isLower c \<or> isDigit c \<or>
      c \<in> set ''!#$%&*+-.^_|~'' \<or> c = CHR 0x27 \<or> c = CHR 0x60)"

fun canonicalMIMEHeaderKey :: "bool \<Rightarrow> string \<Rightarrow> string" where
  "canonicalMIMEHeaderKey upper [] = []"
| "canonicalMIMEHeaderKey upper (c # cs) =
     (let c' = (if upper \<and> isLower c then toUpperByte c
                else if \<not> upper \<and> isUpper c then toLowerByte c
                else c)
      in c' # canonicalMIMEHeaderKey (c' = CHR ''-'') cs)"

definition http_CanonicalHeaderKey :: "string \<Rightarrow> string" where
  "http_CanonicalHeaderKey s =
     (if list_all validHeaderFieldByte s then canonicalMIMEHeaderKey True s else s)"

text \<open>
  \<^verbatim>\<open>http.Header\<close> and \<^verbatim>\<open>url.Values\<close> are maps from a string to a list of strings.
  The model is an association list with distinct keys; its order is the order in which
  \<^verbatim>\<open>range\<close> visits the map, which Go leaves unspecified.
\<close>

type_synonym header = "(string \<times> string list) list"

fun mapSet :: "header \<Rightarrow> string \<Rightarrow> string list \<Rightarrow> header" where
  "mapSet [] k vs = [(k, vs)]"
| "mapSet ((k', vs') # h) k vs =
     (if k' = k then (k, vs) # h else (k', vs') # mapSet h k vs)"

definition mapGet :: "header \<Rightarrow> string \<Rightarrow> string list" where
  "mapGet h k = (case map_of h k of None \<Rightarrow> [] | Some vs \<Rightarrow> vs)"

definition Header_Get :: "header \<Rightarrow> string \<Rightarrow> string" where
  "Header_Get h key =
     (case mapGet h (http_CanonicalHeaderKey key) of [] \<Rightarrow> [] | v # vs \<Rightarrow> v)"

definition Header_Set :: "header \<Rightarrow> string \<Rightarrow> string \<Rightarrow> header" where
  "Header_Set h key v = mapSet h (http_CanonicalHeaderKey key) [v]"

text \<open>\<^verbatim>\<open>url.QueryUnescape\<close> and \<^verbatim>\<open>url.QueryEscape\<close>.\<close>

definition ishex :: "char \<Rightarrow> bool" where
  "ishex c = (isDigit c \<or> (97 \<le> byte c \<and> byte c \<le> 102) \<or> (65 \<le> byte c \<and> byte c \<le> 70))"

definition unhex :: "char \<Rightarrow> nat" where
  "unhex c =
     (if isDigit c then byte c - 48
      else if 97 \<le> byte c \<and> byte c \<le> 102 then byte c - 97 + 10
      else if 65 \<le> byte c \<and> byte c \<le> 70 then byte c - 65 + 10
      else 0)"

fun url_QueryUnescape :: "string \<Rightarrow> string option" where
  "url_QueryUnescape [] = Some []"
| "url_QueryUnescape (c # cs) =
     (if c = CHR ''%'' then
        (case cs of
           a # b # rest \<Rightarrow>
             (if ishex a \<and> ishex b
              then map_option ((#) (char_of (16 * unhex a + unhex b))) (url_QueryUnescape rest)
              else None)
         | _ \<Rightarrow> None)
      else if c = CHR ''+'' then map_option ((#) (CHR '' '')) (url_QueryUnescape cs)
      else map_option ((#) c) (url_QueryUnescape cs))"

definition shouldEscape :: "char \<Rightarrow> bool" where
  "shouldEscape c = (\<not> (isUpper c \<or> isLower c \<or> isDigit c \<or> c \<in> set ''-_.~''))"

definition upperhex :: "nat \<Rightarrow> char" where
  "upperhex n = ''0123456789ABCDEF'' ! (n mod 16)"

definition url_QueryEscape :: "string \<Rightarrow> string" where
  "url_QueryEscape s =
     concat (map (\<lambda>c. if shouldEscape c then
                         (if c = CHR '' '' then ''+''
                          else [CHR ''%'', upperhex (byte c div 16), upperhex (byte c)])
                       else [c]) s)"

text \<open>
  \<^verbatim>\<open>url.ParseQuery\<close>: the query is cut at every \<^verbatim>\<open>&\<close> and \<^verbatim>\<open>;\<close>; an empty piece is
  skipped; a piece is cut at its first \<^verbatim>\<open>=\<close> into key and value; a piece whose key or
  value does not unescape is skipped; the value is appended to the values of its key.
  \<^verbatim>\<open>URL.Query()\<close> drops the error. (Later versions of Go cut at \<^verbatim>\<open>&\<close> only and skip
  a piece that holds a \<^verbatim>\<open>;\<close>.)
\<close>

fun splitAny :: "string \<Rightarrow> string \<Rightarrow> string \<Rightarrow> string list" where
  "splitAny seps cur [] = [cur]"
| "splitAny seps cur (c # cs) =
     (if c \<in> set seps then cur # splitAny seps [] cs else splitAny seps (cur @ [c]) cs)"

definition mapAdd :: "header \<Rightarrow> string \<Rightarrow> string \<Rightarrow> header" where
  "mapAdd m k v = mapSet m k (mapGet m k @ [v])"

definition parsePiece :: "header \<Rightarrow> string \<Rightarrow> header" where
  "parsePiece m piece =
     (if piece = [] then m
      else
        let key = takeWhile (\<lambda>c. c \<noteq> CHR ''='') piece;
            value = drop (Suc (length key)) piece
        in case url_QueryUnescape key of
             None \<Rightarrow> m
           | Some key' \<Rightarrow>
               (case url_QueryUnescape value of
                  None \<Rightarrow> m
                | Some value' \<Rightarrow> mapAdd m key' value'))"

definition url_ParseQuery :: "string \<Rightarrow> header" where
  "url_ParseQuery query = foldl parsePiece [] (splitAny ''&;'' [] query)"

text \<open>
  \<^verbatim>\<open>Values.Encode\<close>: the keys in sorted order, every value of a key as
  \<^verbatim>\<open>key=value\<close>, both escaped, joined by \<^verbatim>\<open>&\<close>.
\<close>

definition Values_Encode :: "header \<Rightarrow> string" where
  "Values_Encode v =
     strings_Join
       (concat (map (\<lambda>k. map (\<lambda>x. url_QueryEscape k @ ''='' @ url_QueryEscape x) (mapGet v k))
                    (sort (map fst v))))
       ''&''"

section \<open>Requests and their environment\<close>

record url =
  Scheme :: string
  Host :: string
  Path :: string
  RawQuery :: string

text \<open>
  The parts of \<^verbatim>\<open>url.URL\<close> and \<^verbatim>\<open>http.Request\<close> the code uses. The field \<^verbatim>\<open>Header\<close> of
  the request is called \<open>ReqHeader\<close> here, \<open>Header\<close> being a field of the session.
\<close>

record http_request =
  Method :: string
  URL :: url
  ReqHeader :: header
  Body :: string

record config =
  AccessKeyID :: string
  SecretAccessKey :: string
  Region :: string
  isVirtualHostedStyle :: bool

text \<open>
  \<^verbatim>\<open>Request\<close> (declared outside the sources): the HTTP request \<^verbatim>\<open>req\<close>, the
  configuration and the expiry in seconds, an \<^verbatim>\<open>int64\<close>.
\<close>

record request =
  req :: http_request
  config :: config
  expires :: "64 word"

text \<open>
  What the signing code takes from outside: the clock, time and number formatting,
  the hash functions, the encodings, and the parts of the package that are not among
  the sources (\<^verbatim>\<open>sumHMAC\<close>, \<^verbatim>\<open>sum256\<close>, \<^verbatim>\<open>getURLEncodedPath\<close>, the table \<^verbatim>\<open>regions\<close>,
  \<^verbatim>\<open>Config.isAnonymous\<close>) and \<^verbatim>\<open>URL.String\<close>. They are parameters: every theorem holds
  for any choice of them.
\<close>

record env =
  now :: int
  timeFormat :: "string \<Rightarrow> int \<Rightarrow> string"
  formatInt :: "int \<Rightarrow> string"
  hmacSHA1 :: "string \<Rightarrow> string \<Rightarrow> string"
  sumHMAC :: "string \<Rightarrow> string \<Rightarrow> string"
  sum256 :: "string \<Rightarrow> string"
  base64Encode :: "string \<Rightarrow> string"
  hexEncode :: "string \<Rightarrow> string"
  getURLEncodedPath :: "string \<Rightarrow> string"
  regions :: "(string \<times> string) list"
  isAnonymous :: "config \<Rightarrow> bool"
  urlString :: "url \<Rightarrow> string"

text \<open>
  Every HMAC computation is recorded as the pair of its key and its message, so that
  a theorem can say which ones an operation performed.
\<close>

type_synonym macs = "(string \<times> string) list"

definition authHeader :: string where
  "authHeader = ''AWS4-HMAC-SHA256''"

definition iso8601DateFormat :: string where
  "iso8601DateFormat = ''20060102T150405Z''"

definition yyyymmdd :: string where
  "yyyymmdd = ''20060102''"

definition http_TimeFormat :: string where
  "http_TimeFormat = ''Mon, 02 Jan 2006 15:04:05 GMT''"

definition newline :: string where
  "newline = [CHR 0x0A]"

text \<open>
  Modelled from the spec: the methods \<^verbatim>\<open>Get\<close> and \<^verbatim>\<open>Set\<close> of \<^verbatim>\<open>Request\<close> are not among
  the sources. The spec has signing add \<^verbatim>\<open>Date\<close>/\<^verbatim>\<open>X-Amz-Date\<close> and the authorization
  header to the request's header set: they read and set a header of \<^verbatim>\<open>req\<close>.
\<close>

definition Request_Get :: "request \<Rightarrow> string \<Rightarrow> string" where
  "Request_Get r key = Header_Get (ReqHeader (req r)) key"

definition Request_Set :: "request \<Rightarrow> string \<Rightarrow> string \<Rightarrow> request" where
  "Request_Set r key v = r\<lparr>req := (req r)\<lparr>ReqHeader := Header_Set (ReqHeader (req r)) key v\<rparr>\<rparr>"

definition setRawQuery :: "request \<Rightarrow> string \<Rightarrow> request" where
  "setRawQuery r q = r\<lparr>req := (req r)\<lparr>URL := (URL (req r))\<lparr>RawQuery := q\<rparr>\<rparr>\<rparr>"

definition url_Query :: "url \<Rightarrow> header" where
  "url_Query u = url_ParseQuery (RawQuery u)"

section \<open>Signature version 4\<close>

definition ignoredHeaders :: "string list" where
  "ignoredHeaders = [''Authorization'', ''Content-Type'', ''Content-Length'', ''User-Agent'']"

definition getSigningKey :: "env \<Rightarrow> string \<Rightarrow> string \<Rightarrow> int \<Rightarrow> string \<times> macs" where
  "getSigningKey e secret region t =
     (let date = sumHMAC e (''AWS4'' @ secret) (timeFormat e yyyymmdd t);
          regionbytes = sumHMAC e date region;
          service = sumHMAC e regionbytes ''s3'';
          signingKey = sumHMAC e service ''aws4_request''
      in (signingKey,
          [(''AWS4'' @ secret, timeFormat e yyyymmdd t), (date, region),
           (regionbytes, ''s3''), (service, ''aws4_request'')]))"

definition getSignature :: "env \<Rightarrow> string \<Rightarrow> string \<Rightarrow> string \<times> macs" where
  "getSignature e signingKey stringToSign =
     (hexEncode e (sumHMAC e signingKey stringToSign), [(signingKey, stringToSign)])"

definition getScope :: "env \<Rightarrow> string \<Rightarrow> int \<Rightarrow> string" where
  "getScope e region t =
     strings_Join [timeFormat e yyyymmdd t, region, ''s3'', ''aws4_request''] ''/''"

definition getCredential :: "env \<Rightarrow> string \<Rightarrow> string \<Rightarrow> int \<Rightarrow> string" where
  "getCredential e accessKeyID region t = accessKeyID @ ''/'' @ getScope e region t"

definition getHashedPayload :: "request \<Rightarrow> string" where
  "getHashedPayload r =
     (if expires r \<noteq> 0 then ''UNSIGNED-PAYLOAD''
      else Header_Get (ReqHeader (req r)) ''X-Amz-Content-Sha256'')"

text \<open>
  The first loop of \<^verbatim>\<open>getCanonicalHeaders\<close>: over the header map, collecting the
  lower-cased names in \<open>headers\<close> and their values in \<open>vals\<close>.
\<close>

fun collectHeaders ::
  "header \<Rightarrow> string list \<Rightarrow> (string \<Rightarrow> string list option) \<Rightarrow>
   string list \<times> (string \<Rightarrow> string list option)" where
  "collectHeaders [] headers vals = (headers, vals)"
| "collectHeaders ((k, vv) # rest) headers vals =
     (if http_CanonicalHeaderKey k \<in> set ignoredHeaders
      then collectHeaders rest headers vals
      else collectHeaders rest (headers @ [strings_ToLower k]) (vals(strings_ToLower k \<mapsto> vv)))"

text \<open>The inner loop over the values of one header, \<open>idx\<close> counting from 0.\<close>

fun writeValues :: "nat \<Rightarrow> string list \<Rightarrow> string" where
  "writeValues idx [] = []"
| "writeValues idx (v # vs) = (if idx > 0 then '','' else []) @ v @ writeValues (Suc idx) vs"

text \<open>The second loop: one line for every name; \<^verbatim>\<open>host\<close> falls through to the default.\<close>

fun writeHeaderLines :: "string \<Rightarrow> (string \<Rightarrow> string list option) \<Rightarrow> string list \<Rightarrow> string" where
  "writeHeaderLines host vals [] = []"
| "writeHeaderLines host vals (k # ks) =
     k @ '':'' @ (if k = ''host'' then host else []) @
     writeValues 0 (case vals k of None \<Rightarrow> [] | Some vv \<Rightarrow> vv) @ newline @
     writeHeaderLines host vals ks"

definition getCanonicalHeaders :: "request \<Rightarrow> string" where
  "getCanonicalHeaders r =
     (case collectHeaders (ReqHeader (req r)) [] Map.empty of
        (headers, vals) \<Rightarrow>
          writeHeaderLines (Host (URL (req r))) vals (sort (headers @ [''host''])))"

fun collectNames :: "header \<Rightarrow> string list \<Rightarrow> string list" where
  "collectNames [] headers = headers"
| "collectNames ((k, vv) # rest) headers =
     (if http_CanonicalHeaderKey k \<in> set ignoredHeaders
      then collectNames rest headers
      else collectNames rest (headers @ [strings_ToLower k]))"

definition getSignedHeaders :: "request \<Rightarrow> string" where
  "getSignedHeaders r =
     strings_Join (sort (collectNames (ReqHeader (req r)) [] @ [''host''])) '';''"

text \<open>\<^verbatim>\<open>getCanonicalRequest\<close> assigns the re-encoded query to the request's URL.\<close>

definition getCanonicalRequest :: "env \<Rightarrow> request \<Rightarrow> string \<times> request" where
  "getCanonicalRequest e r =
     (let r1 = setRawQuery r (replacePlus (Values_Encode (url_Query (URL (req r)))));
          canonicalRequest =
            strings_Join
              [Method (req r1),
               getURLEncodedPath e (Path (URL (req r1))),
               RawQuery (URL (req r1)),
               getCanonicalHeaders r1,
               getSignedHeaders r1,
               getHashedPayload r1] newline
      in (canonicalRequest, r1))"

definition getStringToSignV4 :: "env \<Rightarrow> request \<Rightarrow> string \<Rightarrow> int \<Rightarrow> string" where
  "getStringToSignV4 e r canonicalRequest t =
     (let stringToSign = authHeader @ newline @ timeFormat e iso8601DateFormat t @ newline;
          stringToSign = stringToSign @ getScope e (Region (config r)) t @ newline;
          stringToSign = stringToSign @ hexEncode e (sum256 e canonicalRequest)
      in stringToSign)"

definition PreSignV4 :: "env \<Rightarrow> request \<Rightarrow> request \<times> macs \<times> (error + string)" where
  "PreSignV4 e r =
     (if isAnonymous e (config r) then (r, [], Inl AnonymousPresign)
      else
        let t = now e;
            credential = getCredential e (AccessKeyID (config r)) (Region (config r)) t;
            (signingKey, m1) = getSigningKey e (SecretAccessKey (config r)) (Region (config r)) t;
            signedHeaders = getSignedHeaders r;
            query = url_Query (URL (req r));
            query = mapSet query ''X-Amz-Algorithm'' [authHeader];
            query = mapSet query ''X-Amz-Date'' [timeFormat e iso8601DateFormat t];
            query = mapSet query ''X-Amz-Expires'' [formatInt e (sint (expires r))];
            query = mapSet query ''X-Amz-SignedHeaders'' [signedHeaders];
            query = mapSet query ''X-Amz-Credential'' [credential];
            r1 = setRawQuery r (Values_Encode query);
            (canonicalRequest, r2) = getCanonicalRequest e r1;
            stringToSign = getStringToSignV4 e r2 canonicalRequest t;
            (signature, m2) = getSignature e signingKey stringToSign;
            r3 = setRawQuery r2 (RawQuery (URL (req r2)) @ ''&X-Amz-Signature='' @ signature)
        in (r3, m1 @ m2, Inr (urlString e (URL (req r3)))))"

definition SignV4 :: "env \<Rightarrow> request \<Rightarrow> bool \<Rightarrow> request \<times> macs" where
  "SignV4 e r presign =
     (let t = now e;
          r1 = Request_Set r ''X-Amz-Date'' (timeFormat e iso8601DateFormat t);
          signedHeaders = getSignedHeaders r1;
          (canonicalRequest, r2) = getCanonicalRequest e r1;
          stringToSign = getStringToSignV4 e r2 canonicalRequest t;
          credential = getCredential e (AccessKeyID (config r2)) (Region (config r2)) t;
          (signingKey, m1) = getSigningKey e (SecretAccessKey (config r2)) (Region (config r2)) t;
          (signature, m2) = getSignature e signingKey stringToSign;
          parts = [authHeader @ '' Credential='' @ credential,
                   ''SignedHeaders='' @ signedHeaders,
                   ''Signature='' @ signature];
          auth = strings_Join parts '', ''
      in (Request_Set r2 ''Authorization'' auth, m1 @ m2))"

section \<open>Signature version 2\<close>

text \<open>
  The path both \<^verbatim>\<open>PreSignV2\<close> and \<^verbatim>\<open>writeCanonicalizedResource\<close> encode: with a
  virtual-hosted-style URL, the loop over \<^verbatim>\<open>regions\<close> stops at the first entry for the
  configured region and nothing is written when there is none.
\<close>

definition encodedResourcePath :: "env \<Rightarrow> request \<Rightarrow> string" where
  "encodedResourcePath e r =
     (if isVirtualHostedStyle (config r) then
        (case find (\<lambda>(k, v). v = Region (config r)) (regions e) of
           None \<Rightarrow> []
         | Some (k, v) \<Rightarrow>
             getURLEncodedPath e
               (''/'' @ strings_TrimSuffix (Host (URL (req r))) (''.'' @ k) @ Path (URL (req r))))
      else getURLEncodedPath e (Path (URL (req r))))"

definition addDateIfAbsent :: "env \<Rightarrow> request \<Rightarrow> int \<Rightarrow> request" where
  "addDateIfAbsent e r d =
     (if Request_Get r ''Date'' = [] then Request_Set r ''Date'' (timeFormat e http_TimeFormat d)
      else r)"

definition PreSignV2 :: "env \<Rightarrow> request \<Rightarrow> request \<times> macs \<times> (error + string)" where
  "PreSignV2 e r =
     (if isAnonymous e (config r) then (r, [], Inl AnonymousPresign)
      else
        let d = now e;
            r1 = addDateIfAbsent e r d;
            path = encodedResourcePath e r1;
            epochExpires = (word_of_int d :: 64 word) + expires r1;
            stringToSign = Method (req r1) @ newline @ newline @ newline @
                           formatInt e (sint epochExpires) @ newline @ path;
            signature = base64Encode e (hmacSHA1 e (SecretAccessKey (config r1)) stringToSign);
            query = url_Query (URL (req r1));
            query = (if Region (config r1) = ''google''
                     then mapSet query ''GoogleAccessId'' [AccessKeyID (config r1)]
                     else mapSet query ''AWSAccessKeyId'' [AccessKeyID (config r1)]);
            query = mapSet query ''Expires'' [formatInt e (sint epochExpires)];
            query = mapSet query ''Signature'' [signature];
            r2 = setRawQuery r1 (Values_Encode query)
        in (r2, [(SecretAccessKey (config r1), stringToSign)],
            Inr (urlString e (URL (req r2)))))"

definition writeDefaultHeaders :: "request \<Rightarrow> string" where
  "writeDefaultHeaders r =
     Method (req r) @ newline @
     Header_Get (ReqHeader (req r)) ''Content-MD5'' @ newline @
     Header_Get (ReqHeader (req r)) ''Content-Type'' @ newline @
     Header_Get (ReqHeader (req r)) ''Date'' @ newline"

fun collectProtoHeaders ::
  "header \<Rightarrow> string list \<Rightarrow> (string \<Rightarrow> string list option) \<Rightarrow>
   string list \<times> (string \<Rightarrow> string list option)" where
  "collectProtoHeaders [] protoHeaders vals = (protoHeaders, vals)"
| "collectProtoHeaders ((k, vv) # rest) protoHeaders vals =
     (let lk = strings_ToLower k in
      if strings_HasPrefix lk ''x-amz''
      then collectProtoHeaders rest (protoHeaders @ [lk]) (vals(lk \<mapsto> vv))
      else collectProtoHeaders rest protoHeaders vals)"

fun writeProtoLines :: "(string \<Rightarrow> string list option) \<Rightarrow> string list \<Rightarrow> string" where
  "writeProtoLines vals [] = []"
| "writeProtoLines vals (k # ks) =
     k @ '':'' @ writeValues 0 (case vals k of None \<Rightarrow> [] | Some vv \<Rightarrow> vv) @ newline @
     writeProtoLines vals ks"

definition writeCanonicalizedHeaders :: "request \<Rightarrow> string" where
  "writeCanonicalizedHeaders r =
     (case collectProtoHeaders (ReqHeader (req r)) [] Map.empty of
        (protoHeaders, vals) \<Rightarrow> writeProtoLines vals (sort protoHeaders))"

definition resourceList :: "string list" where
  "resourceList =
     [''acl'', ''location'', ''logging'', ''notification'', ''partNumber'', ''policy'',
      ''response-content-type'', ''response-content-language'', ''response-expires'',
      ''response-cache-control'', ''response-content-disposition'',
      ''response-content-encoding'', ''requestPayment'', ''torrent'', ''uploadId'',
      ''uploads'', ''versionId'', ''versioning'', ''versions'', ''website'']"

text \<open>
  The loop of \<^verbatim>\<open>writeCanonicalizedResource\<close> over the supported sub-resources, \<open>n\<close>
  counting the ones written so far.
\<close>

fun writeResources :: "header \<Rightarrow> nat \<Rightarrow> string list \<Rightarrow> string" where
  "writeResources vals n [] = []"
| "writeResources vals n (resource # rs) =
     (case map_of vals resource of
        Some (v0 # vv) \<Rightarrow>
          (if Suc n = 1 then ''?'' else ''&'') @ resource @
          (if length v0 > 0 then ''='' @ url_QueryEscape v0 else []) @
          writeResources vals (Suc n) rs
      | _ \<Rightarrow> writeResources vals n rs)"

definition writeCanonicalizedResource :: "env \<Rightarrow> request \<Rightarrow> string" where
  "writeCanonicalizedResource e r =
     encodedResourcePath e r @
     (if RawQuery (URL (req r)) \<noteq> []
      then writeResources (url_ParseQuery (RawQuery (URL (req r)))) 0 (sort resourceList)
      else [])"

definition getStringToSignV2 :: "env \<Rightarrow> request \<Rightarrow> string" where
  "getStringToSignV2 e r =
     writeDefaultHeaders r @ writeCanonicalizedHeaders r @ writeCanonicalizedResource e r"

definition SignV2 :: "env \<Rightarrow> request \<Rightarrow> request \<times> macs" where
  "SignV2 e r =
     (let d = now e;
          r1 = addDateIfAbsent e r d;
          stringToSign = getStringToSignV2 e r1;
          hm = hmacSHA1 e (SecretAccessKey (config r1)) stringToSign;
          auth = ''AWS '' @ AccessKeyID (config r1) @ '':'' @ base64Encode e hm
      in (r1\<lparr>req := (req r1)\<lparr>ReqHeader := Header_Set (ReqHeader (req r1)) ''Authorization'' auth\<rparr>\<rparr>,
          [(SecretAccessKey (config r1), stringToSign)]))"

section \<open>The canonical forms as the specification words them\<close>

text \<open>
  The headers that are signed, as the specification has them: the fixed deny-list is
  left out, the names are in lower case, the values are kept as they are.
\<close>

definition signedEntries :: "header \<Rightarrow> header" where
  "signedEntries h =
     map (\<lambda>(k, vv). (strings_ToLower k, vv))
       (filter (\<lambda>(k, vv). http_CanonicalHeaderKey k \<notin> set ignoredHeaders) h)"

text \<open>
  One line of the canonical header block: the name, a colon, for \<^verbatim>\<open>host\<close> the host of
  the URL, the values of the header of that name joined by commas, a newline. When several
  headers have the same name in lower case, the one visited last gives the values.
\<close>

definition headerLine :: "string \<Rightarrow> header \<Rightarrow> string \<Rightarrow> string" where
  "headerLine host h k =
     k @ '':'' @ (if k = ''host'' then host else []) @
     strings_Join (mapGet (rev (signedEntries h)) k) '','' @ newline"

text \<open>The block: a line for every signed name and for \<^verbatim>\<open>host\<close>, the names sorted.\<close>

definition canonicalHeadersSpec :: "string \<Rightarrow> header \<Rightarrow> string" where
  "canonicalHeadersSpec host h =
     concat (map (headerLine host h) (sort (map fst (signedEntries h) @ [''host''])))"

definition signedHeaderNamesSpec :: "header \<Rightarrow> string" where
  "signedHeaderNamesSpec h = strings_Join (sort (map fst (signedEntries h) @ [''host''])) '';''"

text \<open>
  Two header maps that differ only in the letter case of header names: entry by entry
  the names agree in lower case and the values are equal.
\<close>

definition sameUpToCase :: "header \<Rightarrow> header \<Rightarrow> bool" where
  "sameUpToCase h h' =
     list_all2 (\<lambda>(k, vv) (k', vv'). strings_ToLower k = strings_ToLower k' \<and> vv = vv') h h'"

text \<open>
  The headers \<^verbatim>\<open>SignV4\<close> itself sets or reads under their canonical names, and header
  maps that differ in letter case only in the names of other headers.
\<close>

definition signerHeaders :: "string list" where
  "signerHeaders = [''X-Amz-Date'', ''X-Amz-Content-Sha256'']"

definition sameOutsideSigner :: "header \<Rightarrow> header \<Rightarrow> bool" where
  "sameOutsideSigner h h' =
     list_all2 (\<lambda>(k, vv) (k', vv').
        strings_ToLower k = strings_ToLower k' \<and> vv = vv' \<and>
        (if k = k' then True else strings_ToLower k \<notin> set (map strings_ToLower signerHeaders)))
       h h'"

definition withHeader :: "request \<Rightarrow> header \<Rightarrow> request" where
  "withHeader r h = r\<lparr>req := (req r)\<lparr>ReqHeader := h\<rparr>\<rparr>"

text \<open>
  The query suffix of the version 2 canonicalized resource, as the specification has it:
  the sub-resources of the sorted allow-list that the query gives a value to, each as
  \<^verbatim>\<open>key\<close> or \<^verbatim>\<open>key=value\<close>, joined by \<^verbatim>\<open>&\<close> after a leading \<^verbatim>\<open>?\<close>.
\<close>

definition renderResource :: "header \<Rightarrow> string \<Rightarrow> string" where
  "renderResource vals k =
     (case mapGet vals k of
        [] \<Rightarrow> k
      | v # vs \<Rightarrow> if v = [] then k else k @ ''='' @ url_QueryEscape v)"

definition presentResources :: "header \<Rightarrow> string list" where
  "presentResources vals = filter (\<lambda>k. mapGet vals k \<noteq> []) (sort resourceList)"

definition querySuffixSpec :: "header \<Rightarrow> string" where
  "querySuffixSpec vals =
     (if presentResources vals = [] then []
      else ''?'' @ strings_Join (map (renderResource vals) (presentResources vals)) ''&'')"

section \<open>Sample requests\<close>

text \<open>
  An environment and requests to run the signing code on. The hash functions and
  encodings of the sample environment are simple stand-ins (a message authentication code
  is the key followed by the message, a time is printed as its layout); the general
  theorems do not depend on them.
\<close>

definition sampleEnv :: env where
  "sampleEnv =
     \<lparr>now = 1446336000,
      timeFormat = (\<lambda>layout t. layout),
      formatInt = (\<lambda>n. if n < 0 then ''-'' else ''+''),
      hmacSHA1 = (\<lambda>k m. k @ m),
      sumHMAC = (\<lambda>k m. k @ m),
      sum256 = (\<lambda>m. m),
      base64Encode = (\<lambda>m. m),
      hexEncode = (\<lambda>m. m),
      getURLEncodedPath = (\<lambda>p. p),
      regions = [(''s3.amazonaws.com'', ''us-east-1'')],
      isAnonymous = (\<lambda>c. AccessKeyID c = [] \<and> SecretAccessKey c = []),
      urlString = (\<lambda>u. Scheme u @ ''://'' @ Host u @ Path u @
                         (if RawQuery u = [] then [] else ''?'' @ RawQuery u))\<rparr>"

definition sampleConfig :: config where
  "sampleConfig =
     \<lparr>AccessKeyID = ''AKID'', SecretAccessKey = ''secret'', Region = ''us-east-1'',
      isVirtualHostedStyle = False\<rparr>"

definition anonymousConfig :: config where
  "anonymousConfig =
     \<lparr>AccessKeyID = [], SecretAccessKey = [], Region = ''us-east-1'',
      isVirtualHostedStyle = False\<rparr>"

text \<open>A \<^verbatim>\<open>GET\<close> of an object with the given raw query, header map, configuration and expiry.\<close>

definition sampleRequest :: "string \<Rightarrow> header \<Rightarrow> config \<Rightarrow> 64 word \<Rightarrow> request" where
  "sampleRequest q h c x =
     \<lparr>req = \<lparr>Method = ''GET'',
             URL = \<lparr>Scheme = ''https'', Host = ''play.minio.io'', Path = ''/bucket/object'',
                    RawQuery = q\<rparr>,
             ReqHeader = h, Body = ''payload''\<rparr>,
      config = c, expires = x\<rparr>"

section \<open>Resume filter: proofs\<close>

lemma replay_passed:
  "[] \<notin> set items \<Longrightarrow> replay lastCopied False items = Inr (replicate (length items) False)"
  by (induction items) (auto simp: isCopied_def)

lemma replay_empty_checkpoint:
  "[] \<notin> set items \<Longrightarrow> replay [] copied items = Inr (replicate (length items) False)"
  by (induction items) (auto simp: isCopied_def)

lemma replay_pending:
  assumes "lastCopied \<noteq> []" and "[] \<notin> set items"
  shows "replay lastCopied True items =
         Inr (replicate (min (length items) (Suc (firstIndex lastCopied items))) True @
              replicate (length items - Suc (firstIndex lastCopied items)) False)"
  using assms
proof (induction items)
  case Nil
  then show ?case by (simp add: firstIndex_def)
next
  case (Cons x xs)
  show ?case
  proof (cases "x = lastCopied")
    case True
    with Cons.prems have "replay lastCopied True (x # xs) = Inr (True # replicate (length xs) False)"
      by (simp add: isCopied_def replay_passed)
    with True show ?thesis by (simp add: firstIndex_def)
  next
    case False
    with Cons show ?thesis
      by (auto simp: isCopied_def firstIndex_def)
  qed
qed

lemma skip_pattern:
  "replicate (min n (Suc k)) True @ replicate (n - Suc k) False = map (\<lambda>i. i \<le> k) [0..<n]"
  by (rule nth_equalityI) (auto simp: nth_append)

text \<open>
  C1 (as amended). The filter built from a checkpoint, called on the items of a replayed
  sequence in order, none of them empty: with a non-empty checkpoint the call on item
  \<open>i\<close> answers skip exactly when \<open>i\<close> is at or before the first item equal to the
  checkpoint (so it answers true up to and including that item and false after it);
  with an empty checkpoint every call answers false.
\<close>

theorem resume_filter_skips_through_checkpoint:
  assumes "[] \<notin> set items"
  shows "(lastCopied \<noteq> [] \<longrightarrow>
            replay lastCopied (isCopiedFactory lastCopied) items =
              Inr (map (\<lambda>i. i \<le> firstIndex lastCopied items) [0..<length items])) \<and>
         replay [] (isCopiedFactory []) items = Inr (replicate (length items) False)"
  using assms replay_pending [of lastCopied items] replay_empty_checkpoint [of items True]
  by (simp add: isCopiedFactory_def skip_pattern)

text \<open>
  The examples of the specification: checkpoint \<^verbatim>\<open>itemB\<close> over four items gives
  true, true, false, false; an empty checkpoint over two items gives false, false.
\<close>

theorem resume_filter_example:
  "replay ''itemB'' (isCopiedFactory ''itemB'') [''itemA'', ''itemB'', ''itemC'', ''itemD'']
     = Inr [True, True, False, False] \<and>
   replay [] (isCopiedFactory []) [''itemA'', ''itemB''] = Inr [False, False]"
  using resume_filter_skips_through_checkpoint [of "[''itemA'', ''itemB'', ''itemC'', ''itemD'']" "''itemB''"]
    resume_filter_skips_through_checkpoint [of "[''itemA'', ''itemB'']" "''itemB''"]
  by (simp add: firstIndex_def upt_rec)

text \<open>
  A call with an empty item does not answer at all: the closure ends the process, also
  when the checkpoint is empty.
\<close>

theorem resume_filter_empty_item_is_fatal:
  "replay [] (isCopiedFactory []) [Nil] = Inl (Fatal ''Empty source argument passed.'')"
  by (simp add: isCopied_def)

text \<open>
  C10 (as amended). When the non-empty checkpoint occurs nowhere in the replayed sequence
  and no item is empty, every call answers skip: every item is classified as already done.
\<close>

theorem resume_filter_unknown_checkpoint_skips_all:
  assumes "lastCopied \<noteq> []" and "lastCopied \<notin> set items" and "[] \<notin> set items"
  shows "replay lastCopied (isCopiedFactory lastCopied) items = Inr (replicate (length items) True)"
proof -
  from assms(2) have "firstIndex lastCopied items = length items"
    unfolding firstIndex_def by (induction items) auto
  with replay_pending [OF assms(1) assms(3)] show ?thesis
    by (simp add: isCopiedFactory_def)
qed

theorem resume_filter_unknown_checkpoint_example:
  "replay ''itemX'' (isCopiedFactory ''itemX'') [''itemA'', ''itemB'', ''itemC'']
     = Inr [True, True, True]"
  using resume_filter_unknown_checkpoint_skips_all [of "''itemX''" "[''itemA'', ''itemB'', ''itemC'']"]
  by (simp add: numeral_3_eq_3)

text \<open>With an empty item in the sequence the process ends at that call.\<close>

theorem resume_filter_unknown_checkpoint_empty_item:
  "replay ''itemX'' (isCopiedFactory ''itemX'') [''itemA'', Nil]
     = Inl (Fatal ''Empty source argument passed.'')"
  by (simp add: isCopied_def isCopiedFactory_def)

section \<open>Session store: proofs\<close>

lemma load_stored:
  assumes "sessionDirExists w" "configDirOk w"
    and "files w (SessionFile sid) = Some (HeaderFile h)"
    and "files w (SessionDataFile sid) \<noteq> None"
  shows "loadSessionV6 w sid =
           (w, Inr \<lparr>Header = h, SessionID = sid,
                    DataFP = \<lparr>dirty = False, fileName = SessionDataFile sid, isOpen = True\<rparr>\<rparr>)"
  using assms
  by (auto simp: loadSessionV6_def isSessionDirExists_def getSessionFile_def os_Stat_def
      quick_New_def quick_Load_def getSessionDataFile_def os_Open_def)

lemma storedForeign_cases:
  assumes "storedForeign w sid"
  obtains h where "files w (SessionFile sid) = Some (HeaderFile h)"
    and "Version h \<noteq> ''6''" and "files w (SessionDataFile sid) \<noteq> None"
  using assms by (auto simp: storedForeign_def split: option.splits filedata.splits)

lemma migrate_step:
  assumes "sessionDirExists w" "configDirOk w" "storedForeign w sid"
    and "\<not> refused w (OpRemove (SessionFile sid))"
    and "\<not> refused w (OpRemove (SessionDataFile sid))"
  shows "migrateSessionV5ToV6 w (sid # sids) = migrateSessionV5ToV6 (purged w sid) sids"
proof -
  from assms(3) obtain h where h: "files w (SessionFile sid) = Some (HeaderFile h)"
    "Version h \<noteq> ''6''" "files w (SessionDataFile sid) \<noteq> None"
    by (rule storedForeign_cases)
  have "loadSessionV6 w sid =
           (w, Inr \<lparr>Header = h, SessionID = sid,
                    DataFP = \<lparr>dirty = False, fileName = SessionDataFile sid, isOpen = True\<rparr>\<rparr>)"
    using assms(1,2) h(1,3) by (rule load_stored)
  then show ?thesis
    using assms h by (auto simp: getSessionFile_def getSessionDataFile_def os_Remove_def purged_def)
qed

lemma storedForeign_purged:
  "x \<noteq> sid \<Longrightarrow> storedForeign (purged w sid) x = storedForeign w x"
  by (auto simp: purged_def storedForeign_def split: option.splits filedata.splits)

lemma refused_purged: "refused (purged w sid) = refused w"
  by (simp add: purged_def)

lemma migrate_all_foreign:
  assumes "sessionDirExists w" "configDirOk w" "distinct sids"
    and "\<forall>sid \<in> set sids. storedForeign w sid \<and> \<not> refused w (OpRemove (SessionFile sid)) \<and>
           \<not> refused w (OpRemove (SessionDataFile sid))"
  shows "snd (migrateSessionV5ToV6 w sids) = None \<and>
         (\<forall>p. files (fst (migrateSessionV5ToV6 w sids)) p =
                (if p \<in> SessionFile ` set sids \<union> SessionDataFile ` set sids then None
                 else files w p))"
  using assms
proof (induction sids arbitrary: w)
  case Nil
  then show ?case by simp
next
  case (Cons sid sids)
  let ?w = "purged w sid"
  have step: "migrateSessionV5ToV6 w (sid # sids) = migrateSessionV5ToV6 ?w sids"
    using Cons.prems by (intro migrate_step) auto
  have "\<forall>x \<in> set sids. storedForeign ?w x \<and> \<not> refused ?w (OpRemove (SessionFile x)) \<and>
           \<not> refused ?w (OpRemove (SessionDataFile x))"
  proof
    fix x assume x: "x \<in> set sids"
    with Cons.prems(3) have "x \<noteq> sid" by auto
    then have "storedForeign ?w x = storedForeign w x" by (rule storedForeign_purged)
    with x Cons.prems(4) show "storedForeign ?w x \<and> \<not> refused ?w (OpRemove (SessionFile x)) \<and>
           \<not> refused ?w (OpRemove (SessionDataFile x))"
      by (simp add: refused_purged)
  qed
  moreover have "sessionDirExists ?w" "configDirOk ?w" "distinct sids"
    using Cons.prems by (auto simp: purged_def)
  ultimately have IH: "snd (migrateSessionV5ToV6 ?w sids) = None \<and>
         (\<forall>p. files (fst (migrateSessionV5ToV6 ?w sids)) p =
                (if p \<in> SessionFile ` set sids \<union> SessionDataFile ` set sids then None
                 else files ?w p))"
    by (intro Cons.IH) auto
  show ?case unfolding step using IH by (auto simp: purged_def)
qed

text \<open>
  C2 (as amended). \<^verbatim>\<open>loadSessionV6\<close> has no version check: a stored session with a
  readable header and a data file is loaded with the stored header, whatever its version
  tag, and loading removes nothing. Foreign versions are purged by
  \<^verbatim>\<open>migrateSessionV5ToV6\<close>: run over sessions whose stored headers all carry a version
  other than \<^verbatim>\<open>"6"\<close>, it returns normally, has removed the header file and the data file
  of each of them, and has left every other file alone.
\<close>

theorem foreign_version_loaded_then_purged_by_migration:
  assumes "sessionDirExists w" and "configDirOk w" and "distinct sids"
    and "\<forall>sid \<in> set sids. storedForeign w sid \<and> \<not> refused w (OpRemove (SessionFile sid)) \<and>
           \<not> refused w (OpRemove (SessionDataFile sid))"
  shows "(\<forall>sid \<in> set sids. \<exists>h. files w (SessionFile sid) = Some (HeaderFile h) \<and>
            Version h \<noteq> ''6'' \<and>
            loadSessionV6 w sid =
              (w, Inr \<lparr>Header = h, SessionID = sid,
                       DataFP = \<lparr>dirty = False, fileName = SessionDataFile sid,
                                 isOpen = True\<rparr>\<rparr>)) \<and>
         snd (migrateSessionV5ToV6 w sids) = None \<and>
         (\<forall>p. files (fst (migrateSessionV5ToV6 w sids)) p =
                (if p \<in> SessionFile ` set sids \<union> SessionDataFile ` set sids then None
                 else files w p))"
proof -
  have "\<exists>h. files w (SessionFile sid) = Some (HeaderFile h) \<and> Version h \<noteq> ''6'' \<and>
            loadSessionV6 w sid =
              (w, Inr \<lparr>Header = h, SessionID = sid,
                       DataFP = \<lparr>dirty = False, fileName = SessionDataFile sid,
                                 isOpen = True\<rparr>\<rparr>)"
    if "sid \<in> set sids" for sid
  proof -
    from that assms(4) have "storedForeign w sid" by blast
    then obtain h where h: "files w (SessionFile sid) = Some (HeaderFile h)"
      "Version h \<noteq> ''6''" "files w (SessionDataFile sid) \<noteq> None"
      by (rule storedForeign_cases)
    with load_stored [OF assms(1,2) h(1,3)] show ?thesis by blast
  qed
  with migrate_all_foreign [OF assms] show ?thesis by blast
qed

theorem foreign_version_purge_example:
  "snd (migrateSessionV5ToV6 (sampleWorld ''5'') [''abcdefgh'']) = None \<and>
   files (fst (migrateSessionV5ToV6 (sampleWorld ''5'') [''abcdefgh''])) (SessionFile ''abcdefgh'')
     = None \<and>
   files (fst (migrateSessionV5ToV6 (sampleWorld ''5'') [''abcdefgh''])) (SessionDataFile ''abcdefgh'')
     = None"
proof -
  have "sessionDirExists (sampleWorld ''5'')" and "configDirOk (sampleWorld ''5'')"
    and "distinct [''abcdefgh'']"
    and "\<forall>sid \<in> set [''abcdefgh''].
           storedForeign (sampleWorld ''5'') sid \<and>
           \<not> refused (sampleWorld ''5'') (OpRemove (SessionFile sid)) \<and>
           \<not> refused (sampleWorld ''5'') (OpRemove (SessionDataFile sid))"
    by (simp_all add: sampleWorld_def storedForeign_def sampleHeader_def)
  from foreign_version_loaded_then_purged_by_migration [OF this]
  show ?thesis by (simp del: migrateSessionV5ToV6.simps)
qed

text \<open>
  Loading a stored session of version \<^verbatim>\<open>"5"\<close> returns an in-memory session with that
  header and leaves both files in place.
\<close>

theorem load_returns_foreign_version_session:
  "loadSessionV6 (sampleWorld ''5'') ''abcdefgh'' =
     (sampleWorld ''5'',
      Inr \<lparr>Header = sampleHeader ''5'', SessionID = ''abcdefgh'',
           DataFP = \<lparr>dirty = False, fileName = SessionDataFile ''abcdefgh'', isOpen = True\<rparr>\<rparr>)"
  by (rule load_stored) (simp_all add: sampleWorld_def)

text \<open>
  C5 (as amended). The effects of a header flush, in order. \<^verbatim>\<open>Save\<close> on a dirty data
  stream first synchronises it and writes the header file only when that succeeded; on a
  clean one it only writes the header file. \<^verbatim>\<open>Close\<close> never synchronises: it closes the data
  stream and writes the header file only when the close succeeded. In both, the effect on
  the data stream precedes the header write.
\<close>

theorem header_flush_order:
  "effectsOf w (fst (Save w s)) =
     (if dirty (DataFP s) then
        (if isOpen (DataFP s) \<and> \<not> refused w (OpSync (fileName (DataFP s)))
         then Synced (fileName (DataFP s)) # headerWrite w s else [])
      else headerWrite w s) \<and>
   effectsOf w (fst (Close w s)) =
     (if isOpen (DataFP s) \<and> \<not> refused w (OpClose (fileName (DataFP s)))
      then Closed (fileName (DataFP s)) # headerWrite w s else [])"
  by (simp add: Save_def Close_def File_Sync_def File_Close_def quick_New_def quick_Save_def
      getSessionFile_def effectsOf_def headerWrite_def)

theorem header_flush_order_example:
  "effectsOf (sampleWorld ''6'') (fst (Save (sampleWorld ''6'') (sampleSession True))) =
     [Synced (SessionDataFile ''abcdefgh''),
      HeaderWritten (SessionFile ''abcdefgh'') (sampleHeader ''6'')]"
  using header_flush_order [of "sampleWorld ''6''" "sampleSession True"]
  by (simp add: sampleWorld_def sampleSession_def headerWrite_def)

text \<open>
  \<^verbatim>\<open>Close\<close> on a session whose data stream is dirty writes the header file without any
  synchronisation before it.
\<close>

theorem close_does_not_sync:
  "effectsOf (sampleWorld ''6'') (fst (Close (sampleWorld ''6'') (sampleSession True))) =
     [Closed (SessionDataFile ''abcdefgh''),
      HeaderWritten (SessionFile ''abcdefgh'') (sampleHeader ''6'')]"
  by (simp add: Close_def File_Close_def quick_New_def quick_Save_def
      getSessionFile_def effectsOf_def sampleWorld_def sampleSession_def)

section \<open>Signing: what is changed and what is left alone\<close>

lemma setRawQuery_simps:
  "setRawQuery (setRawQuery r a) b = setRawQuery r b"
  "setRawQuery r (RawQuery (URL (req r))) = r"
  "RawQuery (URL (req (setRawQuery r a))) = a"
  "ReqHeader (req (setRawQuery r a)) = ReqHeader (req r)"
  "config (setRawQuery r a) = config r"
  "expires (setRawQuery r a) = expires r"
  "Method (req (setRawQuery r a)) = Method (req r)"
  "Body (req (setRawQuery r a)) = Body (req r)"
  "Path (URL (req (setRawQuery r a))) = Path (URL (req r))"
  "Host (URL (req (setRawQuery r a))) = Host (URL (req r))"
  "Scheme (URL (req (setRawQuery r a))) = Scheme (URL (req r))"
  by (simp_all add: setRawQuery_def)

lemma map_of_mapSet:
  "map_of (mapSet h k vs) k' = (if k' = k then Some vs else map_of h k')"
  by (induction h) auto

lemma Header_Get_Set: "Header_Get (Header_Set h key v) key = v"
  by (simp add: Header_Get_def Header_Set_def mapGet_def map_of_mapSet)

lemma Request_Get_Set: "Request_Get (Request_Set r key v) key = v"
  by (simp add: Request_Get_def Request_Set_def Header_Get_Set)

text \<open>
  C6. With anonymous credentials both pre-signing operations return the error that says
  so, have computed no HMAC, and hand the request back as it was.
\<close>

theorem presign_anonymous_fails_first:
  assumes "isAnonymous e (config r)"
  shows "PreSignV4 e r = (r, [], Inl AnonymousPresign) \<and>
         PreSignV2 e r = (r, [], Inl AnonymousPresign)"
  using assms by (simp add: PreSignV4_def PreSignV2_def)

theorem presign_anonymous_example:
  "PreSignV4 sampleEnv (sampleRequest ''a=1'' [] anonymousConfig 3600) =
     (sampleRequest ''a=1'' [] anonymousConfig 3600, [], Inl AnonymousPresign) \<and>
   PreSignV2 sampleEnv (sampleRequest ''a=1'' [] anonymousConfig 3600) =
     (sampleRequest ''a=1'' [] anonymousConfig 3600, [], Inl AnonymousPresign)"
  using presign_anonymous_fails_first [of sampleEnv "sampleRequest ''a=1'' [] anonymousConfig 3600"]
  by (simp add: sampleEnv_def sampleRequest_def anonymousConfig_def)

text \<open>
  With other credentials the operations do compute HMACs: five for version 4 (four for
  the signing key, one for the signature), one for version 2.
\<close>

lemma presign_macs:
  assumes "\<not> isAnonymous e (config r)"
  shows "length (fst (snd (PreSignV4 e r))) = 5 \<and> length (fst (snd (PreSignV2 e r))) = 1"
  using assms
  by (simp add: PreSignV4_def PreSignV2_def Let_def getSigningKey_def getSignature_def
      split: prod.splits)

lemma PreSignV4_fst:
  "fst (PreSignV4 e r) = setRawQuery r (RawQuery (URL (req (fst (PreSignV4 e r)))))"
  by (simp add: PreSignV4_def Let_def getCanonicalRequest_def getSignature_def setRawQuery_simps
      split: prod.splits)

lemma PreSignV2_fst:
  "fst (PreSignV2 e r) =
     setRawQuery (if isAnonymous e (config r) then r else addDateIfAbsent e r (now e))
       (RawQuery (URL (req (fst (PreSignV2 e r)))))"
  by (simp add: PreSignV2_def Let_def setRawQuery_simps)

text \<open>
  C3 (as amended). For every request and every expiry: \<^verbatim>\<open>PreSignV4\<close> changes nothing of
  the request but the raw query of its URL, so the header set is as before.
  \<^verbatim>\<open>PreSignV2\<close> changes the raw query and, besides, sets the \<^verbatim>\<open>Date\<close> header when the
  credentials are not anonymous and the request has no \<^verbatim>\<open>Date\<close> header (or an empty one);
  otherwise it leaves the header set as it was.
\<close>

theorem presign_frame:
  "fst (PreSignV4 e r) = setRawQuery r (RawQuery (URL (req (fst (PreSignV4 e r))))) \<and>
   ReqHeader (req (fst (PreSignV4 e r))) = ReqHeader (req r) \<and>
   fst (PreSignV2 e r) =
     setRawQuery (if isAnonymous e (config r) then r else addDateIfAbsent e r (now e))
       (RawQuery (URL (req (fst (PreSignV2 e r))))) \<and>
   ReqHeader (req (fst (PreSignV2 e r))) =
     (if isAnonymous e (config r) then ReqHeader (req r)
      else if Header_Get (ReqHeader (req r)) ''Date'' = []
      then Header_Set (ReqHeader (req r)) ''Date'' (timeFormat e http_TimeFormat (now e))
      else ReqHeader (req r))"
proof -
  have a: "fst (PreSignV4 e r) = setRawQuery r (RawQuery (URL (req (fst (PreSignV4 e r)))))"
    by (rule PreSignV4_fst)
  have b: "fst (PreSignV2 e r) =
     setRawQuery (if isAnonymous e (config r) then r else addDateIfAbsent e r (now e))
       (RawQuery (URL (req (fst (PreSignV2 e r)))))"
    by (rule PreSignV2_fst)
  have c: "ReqHeader (req (fst (PreSignV4 e r))) = ReqHeader (req r)"
    by (subst a) (simp only: setRawQuery_simps)
  have d: "ReqHeader (req (fst (PreSignV2 e r))) =
     ReqHeader (req (if isAnonymous e (config r) then r else addDateIfAbsent e r (now e)))"
    by (subst b) (simp only: setRawQuery_simps)
  have "ReqHeader (req (if isAnonymous e (config r) then r else addDateIfAbsent e r (now e))) =
     (if isAnonymous e (config r) then ReqHeader (req r)
      else if Header_Get (ReqHeader (req r)) ''Date'' = []
      then Header_Set (ReqHeader (req r)) ''Date'' (timeFormat e http_TimeFormat (now e))
      else ReqHeader (req r))"
    by (simp add: addDateIfAbsent_def Request_Get_def Request_Set_def)
  with a b c d show ?thesis by simp
qed

theorem presign_frame_example:
  "ReqHeader (req (fst (PreSignV4 sampleEnv
      (sampleRequest ''a=1'' [(''X-Amz-Meta'', [''v''])] sampleConfig 3600)))) =
     [(''X-Amz-Meta'', [''v''])]"
  using presign_frame [of sampleEnv "sampleRequest ''a=1'' [(''X-Amz-Meta'', [''v''])] sampleConfig 3600"]
  by (simp add: sampleRequest_def)

text \<open>
  \<^verbatim>\<open>PreSignV2\<close> with an expiry of one hour on a request without headers: afterwards the
  request has a \<^verbatim>\<open>Date\<close> header.
\<close>

theorem presign_v2_adds_date:
  "ReqHeader (req (sampleRequest ''a=1'' [] sampleConfig 3600)) = [] \<and>
   ReqHeader (req (fst (PreSignV2 sampleEnv (sampleRequest ''a=1'' [] sampleConfig 3600)))) =
     [(''Date'', [''Mon, 02 Jan 2006 15:04:05 GMT''])]"
  by code_simp

text \<open>
  C4 (as amended). \<^verbatim>\<open>SignV2\<close> changes the header set only: it sets \<^verbatim>\<open>Date\<close> when absent
  and sets \<^verbatim>\<open>Authorization\<close>; the URL, raw query included, is as before. \<^verbatim>\<open>SignV4\<close>
  sets \<^verbatim>\<open>X-Amz-Date\<close> (always) and \<^verbatim>\<open>Authorization\<close>, and replaces the raw query of
  the URL by its canonical encoding (keys sorted, every \<^verbatim>\<open>+\<close> written \<^verbatim>\<open>%20\<close>); scheme,
  host and path are as before. Neither touches the body.
\<close>

theorem sign_frame:
  "fst (SignV2 e r) =
     Request_Set (addDateIfAbsent e r (now e)) ''Authorization''
       (Request_Get (fst (SignV2 e r)) ''Authorization'') \<and>
   fst (SignV4 e r presign) =
     Request_Set
       (setRawQuery (Request_Set r ''X-Amz-Date'' (timeFormat e iso8601DateFormat (now e)))
          (replacePlus (Values_Encode (url_Query (URL (req r))))))
       ''Authorization'' (Request_Get (fst (SignV4 e r presign)) ''Authorization'') \<and>
   URL (req (fst (SignV2 e r))) = URL (req r) \<and>
   URL (req (fst (SignV4 e r presign))) =
     (URL (req r))\<lparr>RawQuery := replacePlus (Values_Encode (url_Query (URL (req r))))\<rparr> \<and>
   Body (req (fst (SignV2 e r))) = Body (req r) \<and>
   Body (req (fst (SignV4 e r presign))) = Body (req r)"
proof -
  obtain a2 where a2: "fst (SignV2 e r) =
      Request_Set (addDateIfAbsent e r (now e)) ''Authorization'' a2"
    by (simp add: SignV2_def Let_def Request_Set_def)
  obtain a4 where a4: "fst (SignV4 e r presign) =
      Request_Set
        (setRawQuery (Request_Set r ''X-Amz-Date'' (timeFormat e iso8601DateFormat (now e)))
           (replacePlus (Values_Encode (url_Query (URL (req r))))))
        ''Authorization'' a4"
    by (simp add: SignV4_def Let_def getCanonicalRequest_def getSigningKey_def getSignature_def
        Request_Set_def setRawQuery_def split: prod.splits)
  have g2: "Request_Get (fst (SignV2 e r)) ''Authorization'' = a2"
    unfolding a2 by (rule Request_Get_Set)
  have g4: "Request_Get (fst (SignV4 e r presign)) ''Authorization'' = a4"
    unfolding a4 by (rule Request_Get_Set)
  have date: "URL (req (addDateIfAbsent e r (now e))) = URL (req r)"
    "Body (req (addDateIfAbsent e r (now e))) = Body (req r)"
    by (simp_all add: addDateIfAbsent_def Request_Set_def)
  have "URL (req (fst (SignV2 e r))) = URL (req r)" "Body (req (fst (SignV2 e r))) = Body (req r)"
    unfolding a2 using date by (simp_all add: Request_Set_def)
  moreover have "URL (req (fst (SignV4 e r presign))) =
     (URL (req r))\<lparr>RawQuery := replacePlus (Values_Encode (url_Query (URL (req r))))\<rparr>"
    "Body (req (fst (SignV4 e r presign))) = Body (req r)"
    unfolding a4 by (simp_all add: Request_Set_def setRawQuery_def)
  ultimately show ?thesis using a2 a4 g2 g4 by simp
qed

theorem sign_frame_example:
  "URL (req (fst (SignV2 sampleEnv (sampleRequest ''b=1&a=2'' [] sampleConfig 0)))) =
     \<lparr>Scheme = ''https'', Host = ''play.minio.io'', Path = ''/bucket/object'',
      RawQuery = ''b=1&a=2''\<rparr>"
  using sign_frame [of sampleEnv "sampleRequest ''b=1&a=2'' [] sampleConfig 0"]
  by (simp add: sampleRequest_def)

text \<open>
  \<^verbatim>\<open>SignV4\<close> on a request whose raw query is \<^verbatim>\<open>b=1&a=2\<close>: afterwards the raw query is
  \<^verbatim>\<open>a=2&b=1\<close>.
\<close>

theorem sign_v4_rewrites_query:
  "RawQuery (URL (req (sampleRequest ''b=1&a=2'' [] sampleConfig 0))) = ''b=1&a=2'' \<and>
   RawQuery (URL (req (fst (SignV4 sampleEnv (sampleRequest ''b=1&a=2'' [] sampleConfig 0) False))))
     = ''a=2&b=1''"
  by code_simp

section \<open>Canonical headers of version 4\<close>

lemma writeValues_Suc: "writeValues (Suc n) vs = concat (map (\<lambda>v. '','' @ v) vs)"
  by (induction vs arbitrary: n) auto

lemma strings_Join_Cons: "strings_Join (x # xs) sep = x @ concat (map (\<lambda>v. sep @ v) xs)"
  by (induction xs arbitrary: x) auto

lemma writeValues_Join: "writeValues 0 vs = strings_Join vs '',''"
  by (cases vs) (simp_all add: writeValues_Suc strings_Join_Cons)

lemma collectHeaders_eq:
  "collectHeaders h hs vals =
     (hs @ map fst (signedEntries h), vals ++ map_of (rev (signedEntries h)))"
  by (induction h arbitrary: hs vals) (auto simp: signedEntries_def)

lemma collectNames_eq: "collectNames h hs = hs @ map fst (signedEntries h)"
  by (induction h arbitrary: hs) (auto simp: signedEntries_def)

lemma writeHeaderLines_eq:
  "writeHeaderLines host (map_of (rev (signedEntries h))) ks = concat (map (headerLine host h) ks)"
  by (induction ks) (simp_all add: headerLine_def mapGet_def writeValues_Join)

lemma getCanonicalHeaders_eq:
  "getCanonicalHeaders r = canonicalHeadersSpec (Host (URL (req r))) (ReqHeader (req r))"
  by (simp add: getCanonicalHeaders_def collectHeaders_eq writeHeaderLines_eq canonicalHeadersSpec_def)

lemma getSignedHeaders_eq: "getSignedHeaders r = signedHeaderNamesSpec (ReqHeader (req r))"
  by (simp add: getSignedHeaders_def collectNames_eq signedHeaderNamesSpec_def)

text \<open>
  C7. For every request, the string \<^verbatim>\<open>getCanonicalHeaders\<close> builds is the canonical
  header block of the specification: the headers outside the deny-list
  (\<^verbatim>\<open>Authorization\<close>, \<^verbatim>\<open>Content-Type\<close>, \<^verbatim>\<open>Content-Length\<close>, \<^verbatim>\<open>User-Agent\<close>), their names in
  lower case, together with \<^verbatim>\<open>host\<close>, sorted; each line the name, a colon, the values
  joined by commas, and a newline, also when the header has no value.
\<close>

theorem canonical_headers_refine:
  "getCanonicalHeaders r = canonicalHeadersSpec (Host (URL (req r))) (ReqHeader (req r))"
  by (rule getCanonicalHeaders_eq)

theorem canonical_headers_example:
  "getCanonicalHeaders
     (sampleRequest []
        [(''X-Amz-Meta'', [''a'', ''B'']), (''content-TYPE'', [''text/plain'']),
         (''Empty'', []), (''User-Agent'', [''mc''])] sampleConfig 0) =
   ''empty:'' @ newline @ ''host:play.minio.io'' @ newline @ ''x-amz-meta:a,B'' @ newline"
  unfolding canonical_headers_refine by code_simp

text \<open>
  The order in which the header map is visited does not matter as long as no two signed
  headers have the same name in lower case.
\<close>

lemma mset_signedEntries:
  "mset h = mset h' \<Longrightarrow> mset (signedEntries h) = mset (signedEntries h')"
  by (simp add: signedEntries_def)

lemma visiting_order_irrelevant:
  assumes "mset h = mset h'" and "distinct (map fst (signedEntries h))"
  shows "canonicalHeadersSpec host h' = canonicalHeadersSpec host h"
    and "signedHeaderNamesSpec h' = signedHeaderNamesSpec h"
proof -
  have m: "mset (signedEntries h) = mset (signedEntries h')"
    using assms(1) by (rule mset_signedEntries)
  then have "mset (map fst (signedEntries h)) = mset (map fst (signedEntries h'))"
    by (metis mset_map)
  then have names: "sort (map fst (signedEntries h') @ [''host'']) =
                    sort (map fst (signedEntries h) @ [''host''])"
    by (intro properties_for_sort) simp_all
  have d': "distinct (map fst (signedEntries h'))"
    using assms(2) \<open>mset (map fst (signedEntries h)) = mset (map fst (signedEntries h'))\<close>
    by (metis mset_eq_imp_distinct_iff)
  have "set (rev (signedEntries h)) = set (rev (signedEntries h'))"
    using m by (metis mset_eq_setD set_rev)
  then have "map_of (rev (signedEntries h')) = map_of (rev (signedEntries h))"
    using assms(2) d' by (subst map_of_inject_set) (simp_all add: rev_map [symmetric])
  then have "headerLine host h' = headerLine host h"
    by (intro ext) (simp add: headerLine_def mapGet_def)
  with names show "canonicalHeadersSpec host h' = canonicalHeadersSpec host h"
    by (simp add: canonicalHeadersSpec_def)
  from names show "signedHeaderNamesSpec h' = signedHeaderNamesSpec h"
    by (simp add: signedHeaderNamesSpec_def)
qed

section \<open>Letter case of header names\<close>

lemma byte_char_of: "n < 256 \<Longrightarrow> byte (char_of n) = n"
  by (simp add: byte_def)

lemma char_of_byte: "char_of (byte c) = c"
  by (simp add: byte_def)

lemma toLowerByte_facts:
  "isUpper c \<Longrightarrow> isLower (toLowerByte c)"
  "isUpper c \<Longrightarrow> toUpperByte (toLowerByte c) = c"
  "isUpper c \<Longrightarrow> \<not> isLower c"
  "isUpper c \<Longrightarrow> \<not> isUpper (toLowerByte c)"
  "\<not> isUpper c \<Longrightarrow> toLowerByte c = c"
  by (auto simp: isUpper_def isLower_def toLowerByte_def toUpperByte_def byte_char_of char_of_byte
      byte_def)

lemma toUpperByte_facts:
  "isLower c \<Longrightarrow> isUpper (toUpperByte c)"
  "isLower c \<Longrightarrow> toLowerByte (toUpperByte c) = c"
  "isLower c \<Longrightarrow> toLowerByte c = c"
  by (auto simp: isUpper_def isLower_def toLowerByte_def toUpperByte_def byte_char_of char_of_byte
      byte_def)

lemma toLowerByte_idem: "toLowerByte (toLowerByte c) = toLowerByte c"
  by (cases "isUpper c") (simp_all add: toLowerByte_facts)

lemma strings_ToLower_idem: "strings_ToLower (strings_ToLower s) = strings_ToLower s"
  by (simp add: strings_ToLower_def toLowerByte_idem)

lemma canonical_lower:
  "strings_ToLower (canonicalMIMEHeaderKey u k) = strings_ToLower k"
proof (induction k arbitrary: u)
  case Nil
  then show ?case by (simp add: strings_ToLower_def)
next
  case (Cons c cs)
  have "toLowerByte (if u \<and> isLower c then toUpperByte c
                else if \<not> u \<and> isUpper c then toLowerByte c else c) = toLowerByte c"
    by (simp add: toUpperByte_facts toLowerByte_idem)
  with Cons show ?case by (simp add: strings_ToLower_def Let_def)
qed

lemma canonical_of_lower:
  "canonicalMIMEHeaderKey u (strings_ToLower k) = canonicalMIMEHeaderKey u k"
proof (induction k arbitrary: u)
  case Nil
  then show ?case by (simp add: strings_ToLower_def)
next
  case (Cons c cs)
  let ?f = "\<lambda>c. (if u \<and> isLower c then toUpperByte c
                else if \<not> u \<and> isUpper c then toLowerByte c else c)"
  have "?f (toLowerByte c) = ?f c"
    by (cases "isUpper c") (simp_all add: toLowerByte_facts)
  with Cons show ?case by (simp add: strings_ToLower_def Let_def)
qed

lemma valid_lower: "validHeaderFieldByte (toLowerByte c) = validHeaderFieldByte c"
  by (cases "isUpper c") (simp_all add: toLowerByte_facts validHeaderFieldByte_def)

lemma list_all_valid_lower:
  "list_all validHeaderFieldByte (strings_ToLower k) = list_all validHeaderFieldByte k"
  by (induction k) (simp_all add: strings_ToLower_def valid_lower)

lemma ignored_consts:
  "\<forall>i \<in> set ignoredHeaders. list_all validHeaderFieldByte i \<and> canonicalMIMEHeaderKey True i = i"
  by code_simp

lemma ignored_iff:
  "http_CanonicalHeaderKey k \<in> set ignoredHeaders \<longleftrightarrow>
   strings_ToLower k \<in> set (map strings_ToLower ignoredHeaders)"
proof (cases "list_all validHeaderFieldByte k")
  case True
  then have ck: "http_CanonicalHeaderKey k = canonicalMIMEHeaderKey True (strings_ToLower k)"
    by (simp add: http_CanonicalHeaderKey_def canonical_of_lower)
  show ?thesis
  proof
    assume "http_CanonicalHeaderKey k \<in> set ignoredHeaders"
    then obtain i where i: "i \<in> set ignoredHeaders" "canonicalMIMEHeaderKey True (strings_ToLower k) = i"
      using ck by auto
    from i(2) have "strings_ToLower (canonicalMIMEHeaderKey True (strings_ToLower k)) = strings_ToLower i"
      by simp
    then have "strings_ToLower k = strings_ToLower i"
      by (simp add: canonical_lower strings_ToLower_idem)
    with i(1) show "strings_ToLower k \<in> set (map strings_ToLower ignoredHeaders)" by auto
  next
    assume "strings_ToLower k \<in> set (map strings_ToLower ignoredHeaders)"
    then obtain i where i: "i \<in> set ignoredHeaders" "strings_ToLower k = strings_ToLower i" by auto
    have "canonicalMIMEHeaderKey True (strings_ToLower k) = canonicalMIMEHeaderKey True i"
      unfolding i(2) by (rule canonical_of_lower)
    also have "\<dots> = i" using i(1) ignored_consts by blast
    finally show "http_CanonicalHeaderKey k \<in> set ignoredHeaders" using ck i(1) by simp
  qed
next
  case False
  then have ck: "http_CanonicalHeaderKey k = k"
    by (simp add: http_CanonicalHeaderKey_def)
  have a: "k \<notin> set ignoredHeaders" using False ignored_consts by blast
  have b: "strings_ToLower k \<notin> set (map strings_ToLower ignoredHeaders)"
  proof
    assume "strings_ToLower k \<in> set (map strings_ToLower ignoredHeaders)"
    then obtain i where i: "i \<in> set ignoredHeaders" "strings_ToLower k = strings_ToLower i" by auto
    then have "list_all validHeaderFieldByte i" using ignored_consts by blast
    then have "list_all validHeaderFieldByte (strings_ToLower i)" by (simp only: list_all_valid_lower)
    then have "list_all validHeaderFieldByte k" unfolding i(2)[symmetric] by (simp only: list_all_valid_lower)
    with False show False by simp
  qed
  from a b ck show ?thesis by simp
qed

lemma signedEntries_sameUpToCase:
  assumes "sameUpToCase h h'"
  shows "signedEntries h' = signedEntries h"
  using assms unfolding sameUpToCase_def
proof (induction h h' rule: list_all2_induct)
  case Nil
  then show ?case by simp
next
  case (Cons x xs y ys)
  obtain k vv where x: "x = (k, vv)" by (cases x)
  obtain k' vv' where y: "y = (k', vv')" by (cases y)
  from Cons.hyps(1) x y have eq: "strings_ToLower k = strings_ToLower k'" "vv = vv'" by auto
  then have "http_CanonicalHeaderKey k \<in> set ignoredHeaders \<longleftrightarrow>
     http_CanonicalHeaderKey k' \<in> set ignoredHeaders"
    by (simp only: ignored_iff)
  with Cons.IH eq x y show ?case by (simp add: signedEntries_def)
qed


lemma signer_consts:
  "http_CanonicalHeaderKey ''X-Amz-Date'' = ''X-Amz-Date''"
  "http_CanonicalHeaderKey ''X-Amz-Content-Sha256'' = ''X-Amz-Content-Sha256''"
  "''X-Amz-Date'' \<in> set signerHeaders"
  "''X-Amz-Content-Sha256'' \<in> set signerHeaders"
  by code_simp+

lemma sameOutsideSigner_key:
  assumes "strings_ToLower k = strings_ToLower k'"
    and "if k = k' then True else strings_ToLower k \<notin> set (map strings_ToLower signerHeaders)"
    and "K \<in> set signerHeaders"
  shows "k = K \<longleftrightarrow> k' = K"
proof (cases "k = k'")
  case True
  then show ?thesis by simp
next
  case False
  with assms(2) have n: "strings_ToLower k \<notin> set (map strings_ToLower signerHeaders)" by simp
  from assms(3) have inK: "strings_ToLower K \<in> set (map strings_ToLower signerHeaders)" by simp
  with n have "k \<noteq> K" by metis
  moreover from inK n assms(1) have "k' \<noteq> K" by metis
  ultimately show ?thesis by simp
qed

lemma sameOutsideSigner_imp: "sameOutsideSigner h h' \<Longrightarrow> sameUpToCase h h'"
  unfolding sameOutsideSigner_def sameUpToCase_def
  by (erule list_all2_mono) auto

lemma sameOutsideSigner_mapSet:
  assumes "sameOutsideSigner h h'" and "K \<in> set signerHeaders"
  shows "sameOutsideSigner (mapSet h K vs) (mapSet h' K vs)"
  using assms(1) unfolding sameOutsideSigner_def
proof (induction h h' rule: list_all2_induct)
  case Nil
  then show ?case by simp
next
  case (Cons x xs y ys)
  obtain k vv where x: "x = (k, vv)" by (cases x)
  obtain k' vv' where y: "y = (k', vv')" by (cases y)
  from Cons.hyps(1) x y have "k = K \<longleftrightarrow> k' = K"
    using sameOutsideSigner_key [of k k' K] assms(2) by auto
  with Cons x y show ?case by auto
qed

lemma sameOutsideSigner_map_of:
  assumes "sameOutsideSigner h h'" and "K \<in> set signerHeaders"
  shows "map_of h' K = map_of h K"
  using assms(1) unfolding sameOutsideSigner_def
proof (induction h h' rule: list_all2_induct)
  case Nil
  then show ?case by simp
next
  case (Cons x xs y ys)
  obtain k vv where x: "x = (k, vv)" by (cases x)
  obtain k' vv' where y: "y = (k', vv')" by (cases y)
  from Cons.hyps(1) x y have "k = K \<longleftrightarrow> k' = K"
    using sameOutsideSigner_key [of k k' K] assms(2) by auto
  with Cons x y show ?case by auto
qed

lemma withHeader_simps:
  "ReqHeader (req (withHeader r h)) = h"
  "URL (req (withHeader r h)) = URL (req r)"
  "Method (req (withHeader r h)) = Method (req r)"
  "config (withHeader r h) = config r"
  "expires (withHeader r h) = expires r"
  "Request_Set (withHeader r h) key v = withHeader r (Header_Set h key v)"
  "setRawQuery (withHeader r h) q = withHeader (setRawQuery r q) h"
  "withHeader r (ReqHeader (req r)) = r"
  by (simp_all add: withHeader_def Request_Set_def setRawQuery_def)

lemma canonical_sameUpToCase:
  assumes "sameUpToCase (ReqHeader (req r)) h'"
  shows "getCanonicalHeaders (withHeader r h') = getCanonicalHeaders r"
    and "getSignedHeaders (withHeader r h') = getSignedHeaders r"
  using signedEntries_sameUpToCase [OF assms]
  by (simp_all add: getCanonicalHeaders_eq getSignedHeaders_eq canonicalHeadersSpec_def
      signedHeaderNamesSpec_def headerLine_def withHeader_simps cong: map_cong)

lemma hashedPayload_same:
  assumes "sameOutsideSigner (ReqHeader (req r)) h'"
  shows "getHashedPayload (withHeader r h') = getHashedPayload r"
  using sameOutsideSigner_map_of [OF assms signer_consts(4)]
  by (simp add: getHashedPayload_def Header_Get_def mapGet_def signer_consts withHeader_simps)

lemma canonicalRequest_same:
  assumes "sameOutsideSigner (ReqHeader (req r)) h'"
  shows "getCanonicalRequest e (withHeader r h') =
           (fst (getCanonicalRequest e r), withHeader (snd (getCanonicalRequest e r)) h')"
proof -
  let ?q = "replacePlus (Values_Encode (url_Query (URL (req r))))"
  have s: "sameOutsideSigner (ReqHeader (req (setRawQuery r ?q))) h'"
    using assms by (simp add: setRawQuery_simps)
  note c = canonical_sameUpToCase [OF sameOutsideSigner_imp [OF s]] hashedPayload_same [OF s]
  show ?thesis
    by (simp add: getCanonicalRequest_def Let_def withHeader_simps c setRawQuery_simps)
qed

lemma SignV4_unfold:
  "SignV4 e r p =
     (let t = now e;
          r1 = Request_Set r ''X-Amz-Date'' (timeFormat e iso8601DateFormat t);
          cr = getCanonicalRequest e r1;
          sk = getSigningKey e (SecretAccessKey (config (snd cr))) (Region (config (snd cr))) t;
          sg = getSignature e (fst sk) (getStringToSignV4 e (snd cr) (fst cr) t)
      in (Request_Set (snd cr) ''Authorization''
            (strings_Join
               [authHeader @ '' Credential='' @
                  getCredential e (AccessKeyID (config (snd cr))) (Region (config (snd cr))) t,
                ''SignedHeaders='' @ getSignedHeaders r1,
                ''Signature='' @ fst sg] '', ''),
          snd sk @ snd sg))"
  by (simp add: SignV4_def Let_def case_prod_beta)

lemma SignV4_same:
  assumes "sameOutsideSigner (ReqHeader (req r)) h'"
  shows "Request_Get (fst (SignV4 e (withHeader r h') p)) ''Authorization'' =
           Request_Get (fst (SignV4 e r p)) ''Authorization'' \<and>
         snd (SignV4 e (withHeader r h') p) = snd (SignV4 e r p)"
proof -
  let ?t = "timeFormat e iso8601DateFormat (now e)"
  let ?r1 = "Request_Set r ''X-Amz-Date'' ?t"
  let ?h1 = "Header_Set h' ''X-Amz-Date'' ?t"
  have s: "sameOutsideSigner (ReqHeader (req ?r1)) ?h1"
    using sameOutsideSigner_mapSet [OF assms signer_consts(3)]
    by (simp add: Request_Set_def Header_Set_def signer_consts)
  have w: "withHeader ?r1 ?h1 = withHeader r ?h1"
    by (simp add: withHeader_def Request_Set_def)
  note cr = canonicalRequest_same [OF s, unfolded w]
  note sh = canonical_sameUpToCase(2) [OF sameOutsideSigner_imp [OF s], unfolded w]
  have c: "config (snd (getCanonicalRequest e ?r1)) = config r"
    by (simp add: getCanonicalRequest_def Let_def setRawQuery_simps Request_Set_def)
  obtain a m where R: "SignV4 e r p = (Request_Set (snd (getCanonicalRequest e ?r1)) ''Authorization'' a, m)"
    and L: "SignV4 e (withHeader r h') p =
              (withHeader (snd (getCanonicalRequest e ?r1)) (Header_Set ?h1 ''Authorization'' a), m)"
    unfolding SignV4_unfold
    by (simp add: Let_def cr sh c withHeader_simps getStringToSignV4_def)
  have "Request_Get (withHeader (snd (getCanonicalRequest e ?r1)) (Header_Set ?h1 ''Authorization'' a))
          ''Authorization'' = a"
    by (simp add: Request_Get_def withHeader_simps Header_Get_Set)
  then show ?thesis by (simp add: L R Request_Get_Set)
qed

text \<open>
  C9 (as amended). Two requests that differ only in the letter case of header names
  (the header maps visited in the same order) have the same canonical-header string and
  the same signed-header list. When, in addition, no name that differs is that of a header
  \<^verbatim>\<open>SignV4\<close> itself sets or reads under its canonical name (\<^verbatim>\<open>X-Amz-Date\<close>,
  \<^verbatim>\<open>X-Amz-Content-Sha256\<close>), \<^verbatim>\<open>SignV4\<close> computes the same HMACs for both and gives both
  the same \<^verbatim>\<open>Authorization\<close> header, hence the same signature.
\<close>

theorem header_name_case_insensitive:
  assumes "sameUpToCase (ReqHeader (req r)) h'"
  shows "getCanonicalHeaders (withHeader r h') = getCanonicalHeaders r \<and>
         getSignedHeaders (withHeader r h') = getSignedHeaders r \<and>
         (sameOutsideSigner (ReqHeader (req r)) h' \<longrightarrow>
            Request_Get (fst (SignV4 e (withHeader r h') p)) ''Authorization'' =
              Request_Get (fst (SignV4 e r p)) ''Authorization'' \<and>
            snd (SignV4 e (withHeader r h') p) = snd (SignV4 e r p))"
  using canonical_sameUpToCase [OF assms] SignV4_same [of r h' e p] by blast

theorem header_name_case_example:
  "getCanonicalHeaders (sampleRequest [] [(''x-amz-meta'', [''v''])] sampleConfig 0) =
     getCanonicalHeaders (sampleRequest [] [(''X-Amz-Meta'', [''v''])] sampleConfig 0) \<and>
   getSignedHeaders (sampleRequest [] [(''x-amz-meta'', [''v''])] sampleConfig 0) =
     getSignedHeaders (sampleRequest [] [(''X-Amz-Meta'', [''v''])] sampleConfig 0) \<and>
   Request_Get (fst (SignV4 sampleEnv (sampleRequest [] [(''x-amz-meta'', [''v''])] sampleConfig 0) False))
       ''Authorization'' =
     Request_Get (fst (SignV4 sampleEnv (sampleRequest [] [(''X-Amz-Meta'', [''v''])] sampleConfig 0) False))
       ''Authorization''"
proof -
  let ?r = "sampleRequest [] [(''X-Amz-Meta'', [''v''])] sampleConfig 0"
  let ?h = "[(''x-amz-meta'', [''v''])]"
  have w: "withHeader ?r ?h = sampleRequest [] ?h sampleConfig 0"
    by (simp add: withHeader_def sampleRequest_def)
  have a: "sameUpToCase (ReqHeader (req ?r)) ?h" by code_simp
  have b: "sameOutsideSigner (ReqHeader (req ?r)) ?h" by code_simp
  from header_name_case_insensitive [OF a, of sampleEnv False] b show ?thesis
    unfolding w by blast
qed

text \<open>
  Two requests with no expiry that differ only in the letter case of the name of the
  payload-hash header: the canonical headers agree, but \<^verbatim>\<open>getHashedPayload\<close> looks the
  header up under its canonical name and finds it in the first request only, so the
  canonical requests differ in their last line, and with them what is signed.
\<close>

theorem payload_hash_header_case_matters:
  "sameUpToCase [(''X-Amz-Content-Sha256'', [''abc''])] [(''x-amz-content-sha256'', [''abc''])] \<and>
   getHashedPayload (sampleRequest [] [(''X-Amz-Content-Sha256'', [''abc''])] sampleConfig 0) = ''abc'' \<and>
   getHashedPayload (sampleRequest [] [(''x-amz-content-sha256'', [''abc''])] sampleConfig 0) = [] \<and>
   fst (getCanonicalRequest sampleEnv
          (sampleRequest [] [(''X-Amz-Content-Sha256'', [''abc''])] sampleConfig 0)) \<noteq>
   fst (getCanonicalRequest sampleEnv
          (sampleRequest [] [(''x-amz-content-sha256'', [''abc''])] sampleConfig 0)) \<and>
   Request_Get (fst (SignV4 sampleEnv
       (sampleRequest [] [(''X-Amz-Content-Sha256'', [''abc''])] sampleConfig 0) False)) ''Authorization'' \<noteq>
   Request_Get (fst (SignV4 sampleEnv
       (sampleRequest [] [(''x-amz-content-sha256'', [''abc''])] sampleConfig 0) False)) ''Authorization''"
  by code_simp


section \<open>Canonicalized resource of version 2\<close>

lemma writeResources_Suc:
  "writeResources vals (Suc n) rs =
     concat (map (\<lambda>k. ''&'' @ renderResource vals k) (filter (\<lambda>k. mapGet vals k \<noteq> []) rs))"
  by (induction rs arbitrary: n)
    (auto simp: mapGet_def renderResource_def split: option.splits list.splits)

lemma writeResources_0:
  "writeResources vals 0 rs =
     (case filter (\<lambda>k. mapGet vals k \<noteq> []) rs of
        [] \<Rightarrow> []
      | k # ks \<Rightarrow> ''?'' @ strings_Join (map (renderResource vals) (k # ks)) ''&'')"
  by (induction rs)
    (auto simp: mapGet_def renderResource_def writeResources_Suc strings_Join_Cons comp_def
      split: option.splits list.splits)

lemma writeResources_spec: "writeResources vals 0 (sort resourceList) = querySuffixSpec vals"
  by (simp add: writeResources_0 querySuffixSpec_def presentResources_def split: list.splits)

lemma url_ParseQuery_Nil: "url_ParseQuery [] = []"
  by (simp add: url_ParseQuery_def parsePiece_def)

lemma querySuffixSpec_Nil: "querySuffixSpec [] = []"
  by (simp add: querySuffixSpec_def presentResources_def mapGet_def)

lemma writeCanonicalizedResource_eq:
  "writeCanonicalizedResource e r =
     encodedResourcePath e r @ querySuffixSpec (url_ParseQuery (RawQuery (URL (req r))))"
  by (simp add: writeCanonicalizedResource_def writeResources_spec url_ParseQuery_Nil
      querySuffixSpec_Nil)

lemma querySuffixSpec_cong:
  assumes "\<forall>k \<in> set resourceList. mapGet vals k = mapGet vals' k"
  shows "querySuffixSpec vals = querySuffixSpec vals'"
proof -
  have p: "presentResources vals = presentResources vals'"
    unfolding presentResources_def using assms by (intro filter_cong) auto
  have "set (presentResources vals') \<subseteq> set resourceList"
    by (auto simp: presentResources_def)
  with assms have m: "map (renderResource vals) (presentResources vals') =
        map (renderResource vals') (presentResources vals')"
    by (intro map_cong) (auto simp: renderResource_def)
  show ?thesis by (simp only: querySuffixSpec_def p m)
qed

text \<open>
  C8. For every request URL, what \<^verbatim>\<open>writeCanonicalizedResource\<close> writes after the
  encoded path is the query suffix of the specification: the sub-resources of the sorted
  allow-list that the query gives a value to, each as \<^verbatim>\<open>key\<close> or \<^verbatim>\<open>key=value\<close>,
  joined by \<^verbatim>\<open>&\<close> after a leading \<^verbatim>\<open>?\<close>. Every parameter written is in the allow-list,
  and the suffix depends on the allow-listed parameters only: two queries that agree on
  them give the same suffix, whatever else they hold.
\<close>

theorem resource_allow_list:
  "writeCanonicalizedResource e r =
     encodedResourcePath e r @ querySuffixSpec (url_ParseQuery (RawQuery (URL (req r)))) \<and>
   set (presentResources vals) \<subseteq> set resourceList \<and>
   ((\<forall>k \<in> set resourceList. mapGet vals k = mapGet vals' k) \<longrightarrow>
      querySuffixSpec vals = querySuffixSpec vals')"
  using writeCanonicalizedResource_eq [of e r] querySuffixSpec_cong [of vals vals']
  by (auto simp: presentResources_def)

text \<open>
  The example of the specification, \<^verbatim>\<open>?uploadId=abc&foo=bar\<close>, and two more: a
  sub-resource without a value among other parameters, and a query without any
  sub-resource.
\<close>

theorem resource_allow_list_example:
  "writeCanonicalizedResource sampleEnv
     (sampleRequest ''uploadId=abc&foo=bar'' [] sampleConfig 0) = ''/bucket/object?uploadId=abc'' \<and>
   writeCanonicalizedResource sampleEnv
     (sampleRequest ''versionId=3&max-keys=10&acl'' [] sampleConfig 0) =
       ''/bucket/object?acl&versionId=3'' \<and>
   writeCanonicalizedResource sampleEnv
     (sampleRequest ''prefix=a&delimiter=/'' [] sampleConfig 0) = ''/bucket/object''"
  unfolding resource_allow_list [THEN conjunct1] by code_simp


end
